theory Spec2Isabelle
  imports Complex_Main "HOL-Library.Log_Nat"
begin

section \<open>Resampler: \<open>resampleAudio\<close> (routes/index.tsx, lines 185--219)\<close>

text \<open>
  A number of the source is an IEEE-754 double: a finite value, an infinity or \<open>NaN\<close>. A
  finite value is modelled by the rational it denotes; zero has no sign in the model, and
  no result of \<open>resampleAudio\<close> depends on the sign of a zero. A \<open>Float32Array\<close> holds
  numbers that are 32-bit floats; a store into it rounds (\<open>fround\<close> below). The two rates
  are finite doubles, given by their values.
\<close>

datatype number = Num rat | PosInfinity | NegInfinity | NaN

type_synonym Float32Array = "number list"
type_synonym Int16Array = "int list"

datatype exception = RangeError

text \<open>\<open>arr[k]\<close> on a typed array used as an operand: \<open>undefined\<close> outside the array,
  which \<open>*\<close>, \<open>Math.min\<close> and \<open>Math.max\<close> turn into \<open>NaN\<close>.\<close>

definition readFloat :: "Float32Array \<Rightarrow> int \<Rightarrow> number" where
  "readFloat arr k = (if 0 \<le> k \<and> k < int (length arr) then arr ! nat k else NaN)"

subsection \<open>Rounding to a binary floating-point format\<close>

text \<open>\<open>ilog2 x\<close> is the binary exponent of a positive \<open>x\<close>: the \<open>e\<close> with
  \<open>2^e \<le> x < 2^(e+1)\<close>.\<close>

definition ilog2 :: "rat \<Rightarrow> int" where
  "ilog2 x = (if 1 \<le> x then bitlen \<lfloor>x\<rfloor> - 1 else - bitlen (\<lceil>1 / x\<rceil> - 1))"

text \<open>Rounding to the nearest integer, a tie to the even one.\<close>

definition roundHalfEven :: "rat \<Rightarrow> int" where
  "roundHalfEven z = (let f = \<lfloor>z\<rfloor>; d = z - of_int f in
     if d < 1 / 2 then f else if 1 / 2 < d then f + 1 else if even f then f else f + 1)"

text \<open>
  Round to nearest, ties to even, in the format with \<open>p\<close> significant bits and exponents
  from \<open>emin\<close> to \<open>emax\<close>: the magnitude is rounded to a multiple of the spacing of the
  format at its exponent (the spacing of the subnormals below \<open>2^emin\<close>), and a result
  of \<open>2^(emax+1)\<close> or more is an infinity.
\<close>

definition spacing :: "int \<Rightarrow> int \<Rightarrow> rat \<Rightarrow> rat" where
  "spacing p emin a = 2 powi (max (ilog2 a) emin - (p - 1))"

definition roundedMagnitude :: "int \<Rightarrow> int \<Rightarrow> rat \<Rightarrow> rat" where
  "roundedMagnitude p emin a = of_int (roundHalfEven (a / spacing p emin a)) * spacing p emin a"

definition roundTo :: "int \<Rightarrow> int \<Rightarrow> int \<Rightarrow> rat \<Rightarrow> number" where
  "roundTo p emin emax x =
     (if x = 0 then Num 0
      else let y = roundedMagnitude p emin \<bar>x\<bar>
           in if 2 powi (emax + 1) \<le> y then (if 0 < x then PosInfinity else NegInfinity)
              else Num (if 0 < x then y else - y))"

text \<open>The result of a double-precision operation whose exact value is \<open>x\<close>, and of
  \<open>Math.fround\<close> on a finite \<open>x\<close>.\<close>

definition round64 :: "rat \<Rightarrow> number" where
  "round64 = roundTo 53 (- 1022) 1023"

definition round32 :: "rat \<Rightarrow> number" where
  "round32 = roundTo 24 (- 126) 127"

subsection \<open>The operations on numbers\<close>

text \<open>\<open>a * b\<close>, \<open>a + b\<close> and \<open>a - b\<close> on doubles.\<close>

fun times64 :: "number \<Rightarrow> number \<Rightarrow> number" where
  "times64 (Num x) (Num y) = round64 (x * y)"
| "times64 NaN _ = NaN"
| "times64 _ NaN = NaN"
| "times64 (Num x) PosInfinity = (if x = 0 then NaN else if 0 < x then PosInfinity else NegInfinity)"
| "times64 (Num x) NegInfinity = (if x = 0 then NaN else if 0 < x then NegInfinity else PosInfinity)"
| "times64 PosInfinity (Num y) = (if y = 0 then NaN else if 0 < y then PosInfinity else NegInfinity)"
| "times64 NegInfinity (Num y) = (if y = 0 then NaN else if 0 < y then NegInfinity else PosInfinity)"
| "times64 PosInfinity PosInfinity = PosInfinity"
| "times64 NegInfinity NegInfinity = PosInfinity"
| "times64 PosInfinity NegInfinity = NegInfinity"
| "times64 NegInfinity PosInfinity = NegInfinity"

fun plus64 :: "number \<Rightarrow> number \<Rightarrow> number" where
  "plus64 (Num x) (Num y) = round64 (x + y)"
| "plus64 NaN _ = NaN"
| "plus64 _ NaN = NaN"
| "plus64 PosInfinity NegInfinity = NaN"
| "plus64 NegInfinity PosInfinity = NaN"
| "plus64 PosInfinity _ = PosInfinity"
| "plus64 NegInfinity _ = NegInfinity"
| "plus64 (Num x) PosInfinity = PosInfinity"
| "plus64 (Num x) NegInfinity = NegInfinity"

fun negate :: "number \<Rightarrow> number" where
  "negate (Num x) = Num (- x)"
| "negate PosInfinity = NegInfinity"
| "negate NegInfinity = PosInfinity"
| "negate NaN = NaN"

definition minus64 :: "number \<Rightarrow> number \<Rightarrow> number" where
  "minus64 a b = plus64 a (negate b)"

text \<open>\<open>a / b\<close> for finite \<open>a\<close> and \<open>b\<close>. A quotient by zero is \<open>NaN\<close> for \<open>0 / 0\<close> and
  an infinity otherwise, whose sign is that of \<open>a\<close> for the zero \<open>+0\<close>.\<close>

definition divide64 :: "rat \<Rightarrow> rat \<Rightarrow> number" where
  "divide64 a b =
     (if b = 0 then (if a = 0 then NaN else if 0 < a then PosInfinity else NegInfinity)
      else round64 (a / b))"

text \<open>The store into a \<open>Float32Array\<close> element.\<close>

fun fround :: "number \<Rightarrow> number" where
  "fround (Num x) = round32 x"
| "fround v = v"

text \<open>\<open>Math.max(-1, Math.min(1, v))\<close>: both return \<open>NaN\<close> when an argument is \<open>NaN\<close>.\<close>

fun clampSample :: "number \<Rightarrow> number" where
  "clampSample (Num x) = Num (max (- 1) (min 1 x))"
| "clampSample PosInfinity = Num 1"
| "clampSample NegInfinity = Num (- 1)"
| "clampSample NaN = NaN"

text \<open>\<open>Math.round\<close> rounds to the nearest integer, a tie towards \<open>+\<infinity>\<close>;
  \<open>Math.floor\<close> is \<open>floor\<close>. Both are exact on doubles.\<close>

definition Math_round :: "rat \<Rightarrow> int" where
  "Math_round x = \<lfloor>x + 1 / 2\<rfloor>"

text \<open>The store into an \<open>Int16Array\<close> element (ToInt16): \<open>NaN\<close> and the infinities become
  0, a finite number is truncated towards zero and wrapped into the signed 16-bit range.\<close>

definition Math_trunc :: "rat \<Rightarrow> int" where
  "Math_trunc x = (if x < 0 then - \<lfloor>- x\<rfloor> else \<lfloor>x\<rfloor>)"

definition ToInt16 :: "number \<Rightarrow> int" where
  "ToInt16 v = (case v of
       Num x \<Rightarrow> (let k = Math_trunc x mod 65536 in if 32768 \<le> k then k - 65536 else k)
     | _ \<Rightarrow> 0)"

text \<open>The body of both conversion loops (lines 190--191 and 214--215):
  \<open>s = Math.max(-1, Math.min(1, v)); out[i] = s < 0 ? s * 0x8000 : s * 0x7FFF\<close>.
  \<open>NaN < 0\<close> is false and \<open>NaN * 0x7FFF\<close> is \<open>NaN\<close>. The clamped \<open>s\<close> is a 32-bit float
  in \<open>[-1, 1]\<close>, so that its product with \<open>0x8000\<close> or \<open>0x7FFF\<close> is exact in doubles.\<close>

definition floatToInt16 :: "number \<Rightarrow> int" where
  "floatToInt16 v = (let s = clampSample v in
     ToInt16 (case s of Num x \<Rightarrow> if x < 0 then Num (x * 32768) else Num (x * 32767)
                      | _ \<Rightarrow> s))"

text \<open>\<open>for (let i = 0; i < n; i++) arr[i] = body(i)\<close>, started at \<open>i\<close>. A store outside a
  typed array is ignored, as \<open>list_update\<close> does.\<close>

function forLoop :: "nat \<Rightarrow> (nat \<Rightarrow> 'a) \<Rightarrow> nat \<Rightarrow> 'a list \<Rightarrow> 'a list" where
  "forLoop n body i arr = (if i < n then forLoop n body (Suc i) (arr[i := body i]) else arr)"
  by pat_completeness auto
termination
  by (relation "measure (\<lambda>(n, body, i, arr). n - i)") auto

declare forLoop.simps [simp del]

text \<open>
  The body of the interpolation loop (lines 202--208), for the ratio of line 197. The loop
  runs only for a finite ratio; with any other ratio, and with a source position that is
  not finite, the reads are \<open>undefined\<close> and the sample is \<open>NaN\<close>.
\<close>

definition interpolateAt :: "Float32Array \<Rightarrow> rat \<Rightarrow> number" where
  "interpolateAt inputData srcIndex =
     (let srcIndexFloor = \<lfloor>srcIndex\<rfloor>;
          srcIndexCeil = min (srcIndexFloor + 1) (int (length inputData) - 1);
          t = round64 (srcIndex - of_int srcIndexFloor)
      in plus64 (times64 (readFloat inputData srcIndexFloor) (minus64 (Num 1) t))
                (times64 (readFloat inputData srcIndexCeil) t))"

definition interpolate :: "Float32Array \<Rightarrow> number \<Rightarrow> nat \<Rightarrow> number" where
  "interpolate inputData ratio i =
     (case times64 (Num (of_nat i)) ratio of
        Num srcIndex \<Rightarrow> fround (interpolateAt inputData srcIndex)
      | _ \<Rightarrow> NaN)"

text \<open>
  \<open>new Float32Array(outputLength)\<close> for \<open>outputLength = Math.round(inputData.length /
  ratio)\<close> (lines 197--199). The constructor takes \<open>NaN\<close> as 0 and throws a \<open>RangeError\<close>
  for a length that is negative or infinite, or whose four bytes per element exceed
  \<open>2^53 - 1\<close> bytes in all. An engine may refuse a smaller length for lack of memory; that
  is outside the model.
\<close>

definition maxFloat32ArrayLength :: int where
  "maxFloat32ArrayLength = (2 ^ 53 - 1) div 4"

definition newFloat32ArrayLength :: "number \<Rightarrow> exception + nat" where
  "newFloat32ArrayLength len = (case len of
       NaN \<Rightarrow> Inr 0
     | Num outputLength \<Rightarrow>
         if outputLength < 0 \<or> of_int maxFloat32ArrayLength < outputLength then Inl RangeError
         else Inr (nat \<lfloor>outputLength\<rfloor>)
     | _ \<Rightarrow> Inl RangeError)"

text \<open>\<open>inputData.length / ratio\<close> and \<open>Math.round\<close> of it, on numbers.\<close>

definition lengthOverRatio :: "nat \<Rightarrow> number \<Rightarrow> number" where
  "lengthOverRatio inputLength ratio = (case ratio of
       Num r \<Rightarrow> divide64 (of_nat inputLength) r
     | NaN \<Rightarrow> NaN
     | _ \<Rightarrow> Num 0)"

fun Math_round_number :: "number \<Rightarrow> number" where
  "Math_round_number (Num x) = Num (of_int (Math_round x))"
| "Math_round_number v = v"

definition outputLengthOf :: "nat \<Rightarrow> rat \<Rightarrow> rat \<Rightarrow> exception + nat" where
  "outputLengthOf inputLength sourceSampleRate targetSampleRate =
     newFloat32ArrayLength
       (Math_round_number
         (lengthOverRatio inputLength (divide64 sourceSampleRate targetSampleRate)))"

definition quantizeArray :: "Float32Array \<Rightarrow> Int16Array" where
  "quantizeArray data =
     forLoop (length data) (\<lambda>i. floatToInt16 (readFloat data (int i))) 0
       (replicate (length data) 0)"

definition outputDataOf :: "Float32Array \<Rightarrow> number \<Rightarrow> nat \<Rightarrow> Float32Array" where
  "outputDataOf inputData ratio outputLength =
     forLoop outputLength (interpolate inputData ratio) 0 (replicate outputLength (Num 0))"

definition resampleAudio :: "Float32Array \<Rightarrow> rat \<Rightarrow> rat \<Rightarrow> exception + Int16Array" where
  "resampleAudio inputData sourceSampleRate targetSampleRate =
     (if sourceSampleRate = targetSampleRate then Inr (quantizeArray inputData)
      else (case outputLengthOf (length inputData) sourceSampleRate targetSampleRate of
              Inl e \<Rightarrow> Inl e
            | Inr outputLength \<Rightarrow>
                Inr (quantizeArray
                      (outputDataOf inputData (divide64 sourceSampleRate targetSampleRate)
                         outputLength))))"

subsection \<open>The quantization as the specification words it\<close>

text \<open>Quantization, section 4.1: clamp to \<open>[-1, 1]\<close>, scale a negative value by 32768 and
  any other by 32767. The integer sample is the scaled value with its fraction dropped; the
  \<open>NaN\<close> of the source's typed arrays becomes 0.\<close>

definition scaleClamped :: "rat \<Rightarrow> rat" where
  "scaleClamped x = (let s = max (- 1) (min 1 x) in if s < 0 then s * 32768 else s * 32767)"

definition quantizeSample :: "number \<Rightarrow> int" where
  "quantizeSample v = (case v of
       Num x \<Rightarrow> Math_trunc (scaleClamped x)
     | PosInfinity \<Rightarrow> 32767
     | NegInfinity \<Rightarrow> - 32768
     | NaN \<Rightarrow> 0)"

section \<open>Connection and recording lifecycle: \<open>AudioTranscription\<close> (lines 28--321, 354--384)\<close>

text \<open>
  The component keeps three React state variables and six refs. The model is one record of
  them, passed through every function. A state setter is an assignment to the record, in
  the order in which the source calls the setters, so that the record a function returns is
  the state rendered once the function has run. A ref holds an object or \<open>null\<close>.
  The calls that release a resource are logged in \<open>calls\<close>, oldest first.
\<close>

datatype ConnectionState = Disconnected | Connecting | Connected | Recording | Error

datatype object = PeerConnection | DataChannel string | MediaStream | AudioContext | ScriptProcessor

datatype call =
    ProcessorDisconnect      \<comment> \<open>\<open>processorRef.current.disconnect()\<close>\<close>
  | TracksStop               \<comment> \<open>\<open>getTracks().forEach(track => track.stop())\<close>\<close>
  | AudioContextClose        \<comment> \<open>\<open>audioContextRef.current.close()\<close>\<close>
  | PeerConnectionClose      \<comment> \<open>\<open>pcRef.current.close()\<close>\<close>

text \<open>
  \<open>connect\<close> is created by \<open>useCallback\<close> in a render and its handlers are closures of
  that render: the \<open>connectionState\<close> that \<open>audioChannel.onclose\<close> reads (line 108) is the
  constant of the render in which the running \<open>connect\<close> was created, not the state at the
  time of the close. \<open>oncloseScope\<close> holds that constant once \<open>connect\<close> has installed the
  handlers. The other handlers and functions read no state variable; they use the setters
  and the refs, which are always current.
\<close>

record app =
  connectionState :: ConnectionState
  transcription :: string
  errorMessage :: string
  pcRef :: "object option"
  audioChannelRef :: "object option"
  transcriptionChannelRef :: "object option"
  audioContextRef :: "object option"
  mediaStreamRef :: "object option"
  processorRef :: "object option"
  oncloseScope :: "ConnectionState option"
  calls :: "call list"

definition initial :: app where
  "initial = \<lparr>connectionState = Disconnected, transcription = [], errorMessage = [],
     pcRef = None, audioChannelRef = None, transcriptionChannelRef = None,
     audioContextRef = None, mediaStreamRef = None, processorRef = None,
     oncloseScope = None, calls = []\<rparr>"

text \<open>The value caught by a \<open>catch\<close> block, and
  \<open>error instanceof Error ? error.message : fallback\<close>.\<close>

datatype thrown = ErrorObject string | OtherValue

definition messageOf :: "thrown \<Rightarrow> string \<Rightarrow> string" where
  "messageOf error fallback = (case error of ErrorObject message \<Rightarrow> message | OtherValue \<Rightarrow> fallback)"

subsection \<open>Releasing resources\<close>

text \<open>The four blocks \<open>if (ref.current) { release; ref.current = null }\<close>, as they stand
  in \<open>cleanup\<close> (lines 42--60), \<open>stopRecording\<close> (297--310) and the \<open>catch\<close> block of
  \<open>startRecording\<close> (284--291).\<close>

definition releaseProcessor :: "app \<Rightarrow> app" where
  "releaseProcessor s = (case processorRef s of None \<Rightarrow> s
     | Some _ \<Rightarrow> s\<lparr>calls := calls s @ [ProcessorDisconnect], processorRef := None\<rparr>)"

definition releaseMediaStream :: "app \<Rightarrow> app" where
  "releaseMediaStream s = (case mediaStreamRef s of None \<Rightarrow> s
     | Some _ \<Rightarrow> s\<lparr>calls := calls s @ [TracksStop], mediaStreamRef := None\<rparr>)"

definition releaseAudioContext :: "app \<Rightarrow> app" where
  "releaseAudioContext s = (case audioContextRef s of None \<Rightarrow> s
     | Some _ \<Rightarrow> s\<lparr>calls := calls s @ [AudioContextClose], audioContextRef := None\<rparr>)"

definition releasePeerConnection :: "app \<Rightarrow> app" where
  "releasePeerConnection s = (case pcRef s of None \<Rightarrow> s
     | Some _ \<Rightarrow> s\<lparr>calls := calls s @ [PeerConnectionClose], pcRef := None\<rparr>)"

text \<open>\<open>cleanup\<close>, lines 41--64.\<close>

definition cleanup :: "app \<Rightarrow> app" where
  "cleanup s =
     (releasePeerConnection (releaseAudioContext (releaseMediaStream (releaseProcessor s))))
       \<lparr>audioChannelRef := None, transcriptionChannelRef := None\<rparr>"

text \<open>\<open>stopRecording\<close>, lines 296--313.\<close>

definition stopRecording :: "app \<Rightarrow> app" where
  "stopRecording s =
     (releaseAudioContext (releaseMediaStream (releaseProcessor s)))
       \<lparr>connectionState := Connected\<rparr>"

text \<open>\<open>disconnect\<close>, lines 316--321.\<close>

definition disconnect :: "app \<Rightarrow> app" where
  "disconnect s = (cleanup s)\<lparr>connectionState := Disconnected, transcription := [],
     errorMessage := []\<rparr>"

subsection \<open>\<open>connect\<close> and the handlers it installs\<close>

text \<open>
  \<open>connect\<close> is an \<open>async\<close> function. The call runs lines 74--156 and returns at the first
  \<open>await\<close>: it sets the state, creates the peer connection and the two channels and installs
  the handlers. The rest (lines 156--174: offer, local description, HTTP exchange, remote
  description) runs when the awaited steps settle and touches neither state nor refs unless
  a step fails; a failure, which includes the \<open>throw\<close> of line 170 for a response that is not
  ok, runs the \<open>catch\<close> block (lines 176--181). The three constructors of lines 78--92
  are taken to succeed.
\<close>

definition connect :: "app \<Rightarrow> app" where
  "connect s = s\<lparr>connectionState := Connecting, errorMessage := [],
     pcRef := Some PeerConnection,
     audioChannelRef := Some (DataChannel ''audio''),
     transcriptionChannelRef := Some (DataChannel ''transcription''),
     oncloseScope := Some (connectionState s)\<rparr>"

definition connect_catch :: "thrown \<Rightarrow> app \<Rightarrow> app" where
  "connect_catch error s =
     cleanup (s\<lparr>errorMessage := messageOf error ''Failed to connect'',
                connectionState := Error\<rparr>)"

text \<open>The error of line 170, for the status code written in decimal.\<close>

definition httpError :: "string \<Rightarrow> thrown" where
  "httpError status = ErrorObject (''HTTP error! status: '' @ status)"

text \<open>\<open>audioChannel.onopen\<close>, \<open>onerror\<close> and \<open>onclose\<close> (lines 95--111).\<close>

definition audioChannel_onopen :: "app \<Rightarrow> app" where
  "audioChannel_onopen s = s\<lparr>connectionState := Connected\<rparr>"

definition audioChannel_onerror :: "app \<Rightarrow> app" where
  "audioChannel_onerror s =
     s\<lparr>errorMessage := ''Audio channel error occurred'', connectionState := Error\<rparr>"

definition audioChannel_onclose :: "app \<Rightarrow> app" where
  "audioChannel_onclose s = (if oncloseScope s = Some Recording then stopRecording s else s)"

text \<open>\<open>transcriptionChannel.onmessage\<close> (lines 118--130). The payload is what
  \<open>JSON.parse\<close> makes of the frame: a failure, or an object with its \<open>type\<close>, \<open>text\<close> and
  \<open>message\<close> fields (absent fields are \<open>None\<close>). A string is truthy when it is not empty.\<close>

datatype messageType = TranscriptionType | StatusType | OtherType

datatype payload = Malformed | Parsed messageType "string option" "string option"

fun transcriptionChannel_onmessage :: "payload \<Rightarrow> app \<Rightarrow> app" where
  "transcriptionChannel_onmessage (Parsed TranscriptionType (Some text) message) s =
     (if text \<noteq> [] then s\<lparr>transcription := transcription s @ text @ '' ''\<rparr> else s)"
| "transcriptionChannel_onmessage _ s = s"

text \<open>\<open>pc.onconnectionstatechange\<close> (lines 137--148), for the new \<open>pc.connectionState\<close>.\<close>

datatype RTCPeerConnectionState =
  PcNew | PcConnecting | PcConnected | PcDisconnected | PcFailed | PcClosed

definition pc_onconnectionstatechange :: "RTCPeerConnectionState \<Rightarrow> app \<Rightarrow> app" where
  "pc_onconnectionstatechange pcState s =
     (if pcState = PcFailed then
        cleanup (s\<lparr>errorMessage := ''Connection failed'', connectionState := Error\<rparr>)
      else if pcState = PcDisconnected \<or> pcState = PcClosed then
        cleanup (s\<lparr>connectionState := Disconnected\<rparr>)
      else s)"

subsection \<open>\<open>startRecording\<close>\<close>

text \<open>
  \<open>startRecording\<close> is \<open>async\<close> with one \<open>await\<close>, on \<open>getUserMedia\<close>. The call runs lines
  224--228; the rest runs when the microphone request settles. The outcome of the \<open>try\<close>
  block is that it completes, or the step at which a value is thrown.
\<close>

definition startRecording :: "app \<Rightarrow> app" where
  "startRecording s = s\<lparr>transcription := [], errorMessage := []\<rparr>"

datatype recordingStep =
    GetUserMedia              \<comment> \<open>line 228: permission denied, no device\<close>
  | NewAudioContext           \<comment> \<open>line 239\<close>
  | CreateMediaStreamSource   \<comment> \<open>line 242\<close>
  | CreateScriptProcessor     \<comment> \<open>line 246\<close>
  | SourceConnect             \<comment> \<open>line 273\<close>
  | ProcessorConnect          \<comment> \<open>line 274\<close>

datatype recordingOutcome = Completes | ThrowsAt recordingStep thrown

text \<open>The \<open>catch\<close> block, lines 278--292.\<close>

definition startRecording_catch :: "thrown \<Rightarrow> app \<Rightarrow> app" where
  "startRecording_catch error s =
     releaseAudioContext (releaseMediaStream
       (s\<lparr>errorMessage := messageOf error ''Failed to start recording'',
          connectionState := Error\<rparr>))"

text \<open>Lines 228--276 after the \<open>await\<close>: the refs are assigned as the objects are
  acquired (lines 236, 240, 247), up to the step that throws.\<close>

fun startRecording_resumed :: "recordingOutcome \<Rightarrow> app \<Rightarrow> app" where
  "startRecording_resumed (ThrowsAt GetUserMedia error) s = startRecording_catch error s"
| "startRecording_resumed (ThrowsAt NewAudioContext error) s =
     startRecording_catch error (s\<lparr>mediaStreamRef := Some MediaStream\<rparr>)"
| "startRecording_resumed (ThrowsAt CreateMediaStreamSource error) s =
     startRecording_catch error
       (s\<lparr>mediaStreamRef := Some MediaStream, audioContextRef := Some AudioContext\<rparr>)"
| "startRecording_resumed (ThrowsAt CreateScriptProcessor error) s =
     startRecording_catch error
       (s\<lparr>mediaStreamRef := Some MediaStream, audioContextRef := Some AudioContext\<rparr>)"
| "startRecording_resumed (ThrowsAt SourceConnect error) s =
     startRecording_catch error
       (s\<lparr>mediaStreamRef := Some MediaStream, audioContextRef := Some AudioContext,
          processorRef := Some ScriptProcessor\<rparr>)"
| "startRecording_resumed (ThrowsAt ProcessorConnect error) s =
     startRecording_catch error
       (s\<lparr>mediaStreamRef := Some MediaStream, audioContextRef := Some AudioContext,
          processorRef := Some ScriptProcessor\<rparr>)"
| "startRecording_resumed Completes s =
     s\<lparr>mediaStreamRef := Some MediaStream, audioContextRef := Some AudioContext,
       processorRef := Some ScriptProcessor, connectionState := Recording\<rparr>"

subsection \<open>The events of a session\<close>

text \<open>
  The four buttons (lines 354--384) are disabled by the state of the last render, and a
  disabled button delivers no click. The handlers of a channel or of the peer connection
  run only once \<open>connect\<close> has installed them. The settlements of the two \<open>async\<close>
  functions are events of their own, so that other events can come between a call and its
  result; the model lets a settlement arrive in any state, which covers a result that
  arrives late.
\<close>

datatype event =
    ClickConnect
  | ConnectSettled "thrown option"       \<comment> \<open>\<open>None\<close>: the answer was applied\<close>
  | AudioChannelOpen
  | AudioChannelError
  | AudioChannelClose
  | TranscriptionMessage payload
  | ConnectionStateChange RTCPeerConnectionState
  | ClickStartRecording
  | MicrophoneSettled recordingOutcome
  | ClickStopRecording
  | ClickDisconnect

definition installed :: "app \<Rightarrow> bool" where
  "installed s = (oncloseScope s \<noteq> None)"

fun step :: "app \<Rightarrow> event \<Rightarrow> app" where
  "step s ClickConnect = (if connectionState s \<noteq> Disconnected then s else connect s)"
| "step s (ConnectSettled None) = s"
| "step s (ConnectSettled (Some error)) = connect_catch error s"
| "step s AudioChannelOpen = (if installed s then audioChannel_onopen s else s)"
| "step s AudioChannelError = (if installed s then audioChannel_onerror s else s)"
| "step s AudioChannelClose = (if installed s then audioChannel_onclose s else s)"
| "step s (TranscriptionMessage data) =
     (if installed s then transcriptionChannel_onmessage data s else s)"
| "step s (ConnectionStateChange pcState) =
     (if installed s then pc_onconnectionstatechange pcState s else s)"
| "step s ClickStartRecording = (if connectionState s \<noteq> Connected then s else startRecording s)"
| "step s (MicrophoneSettled outcome) = startRecording_resumed outcome s"
| "step s ClickStopRecording = (if connectionState s \<noteq> Recording then s else stopRecording s)"
| "step s ClickDisconnect = (if connectionState s = Disconnected then s else disconnect s)"

definition run :: "event list \<Rightarrow> app \<Rightarrow> app" where
  "run events s = foldl step s events"

subsection \<open>What the user sees\<close>

text \<open>\<open>getStatusText\<close>, lines 333--341: the status line of the page.\<close>

definition getStatusText :: "app \<Rightarrow> string" where
  "getStatusText s = (case connectionState s of
       Connected \<Rightarrow> ''Connected - Ready to record''
     | Connecting \<Rightarrow> ''Connecting...''
     | Recording \<Rightarrow> ''Recording...''
     | Error \<Rightarrow> ''Error: '' @ errorMessage s
     | Disconnected \<Rightarrow> ''Disconnected'')"

text \<open>An event is informative when the error object it delivers, if any, has a message
  that is not empty.\<close>

fun informative :: "event \<Rightarrow> bool" where
  "informative (ConnectSettled (Some (ErrorObject message))) = (message \<noteq> [])"
| "informative (MicrophoneSettled (ThrowsAt _ (ErrorObject message))) = (message \<noteq> [])"
| "informative _ = True"

text \<open>The error message fits the state: \<open>Error\<close> has one, \<open>Connecting\<close> has none.\<close>

definition message_fits :: "app \<Rightarrow> bool" where
  "message_fits s = ((connectionState s = Error \<longrightarrow> errorMessage s \<noteq> [])
     \<and> (connectionState s = Connecting \<longrightarrow> errorMessage s = []))"

section \<open>Properties of the resampler\<close>

subsection \<open>Evaluating floors and bit lengths of numerals\<close>

lemma floor_rat_divide_numeral:
  "\<lfloor>numeral a / numeral b :: rat\<rfloor> = numeral a div numeral b"
  using floor_divide_of_int_eq [of "numeral a" "numeral b", where ?'a = rat] by simp

lemma floor_rat_minus_divide_numeral:
  "\<lfloor>- (numeral a / numeral b) :: rat\<rfloor> = - numeral a div numeral b"
  using floor_divide_of_int_eq [of "- numeral a" "numeral b", where ?'a = rat] by simp

lemma floor_rat_one_divide_numeral:
  "\<lfloor>1 / numeral b :: rat\<rfloor> = 1 div numeral b"
  using floor_divide_of_int_eq [of 1 "numeral b", where ?'a = rat] by simp

lemmas floor_rat_numeral =
  floor_rat_divide_numeral floor_rat_minus_divide_numeral floor_rat_one_divide_numeral

lemma Math_round_zero [simp]: "Math_round 0 = 0"
  by (simp add: Math_round_def floor_rat_numeral)

lemma bitlen_one [simp]: "bitlen 1 = 1"
  by (subst compute_bitlen) simp

lemma bitlen_Bit0 [simp]: "bitlen (numeral (Num.Bit0 n)) = bitlen (numeral n) + 1"
  by (subst compute_bitlen) simp

lemma bitlen_Bit1 [simp]: "bitlen (numeral (Num.Bit1 n)) = bitlen (numeral n) + 1"
  by (subst compute_bitlen) simp

lemmas round_eval =
  round64_def round32_def roundTo_def roundedMagnitude_def spacing_def ilog2_def
  roundHalfEven_def Let_def ceiling_def floor_rat_numeral power_int_minus_divide


subsection \<open>Rounding: the error of one operation\<close>

lemma ilog2_le:
  assumes "0 < x"
  shows "2 powi ilog2 x \<le> x"
proof (cases "1 \<le> x")
  case True
  then have pos: "0 < \<lfloor>x\<rfloor>" by simp
  define b where "b = bitlen \<lfloor>x\<rfloor>"
  have b: "1 \<le> b"
    using pos by (simp add: b_def bitlen_ge_iff_power)
  have "2 ^ nat (b - 1) \<le> \<lfloor>x\<rfloor>"
    using bitlen_bounds [OF pos] by (simp add: b_def)
  then have "of_int (2 ^ nat (b - 1)) \<le> (of_int \<lfloor>x\<rfloor> :: rat)"
    by (simp only: of_int_le_iff)
  also have "\<dots> \<le> x" by simp
  finally have "2 ^ nat (b - 1) \<le> x" by simp
  moreover have "ilog2 x = b - 1"
    using True by (simp add: ilog2_def b_def)
  ultimately show ?thesis
    using b by (simp add: power_int_nonneg_exp)
next
  case False
  then have x1: "x < 1" by simp
  define c where "c = \<lceil>1 / x\<rceil>"
  have "1 < 1 / x"
    using assms x1 by (simp add: field_simps)
  then have c2: "2 \<le> c"
    unfolding c_def by (simp add: le_ceiling_iff)
  define b where "b = bitlen (c - 1)"
  have pos: "0 < c - 1" using c2 by simp
  have b: "0 \<le> b" by (simp add: b_def bitlen_nonneg)
  have "c - 1 < 2 ^ nat b"
    using bitlen_bounds [OF pos] by (simp add: b_def)
  then have "c \<le> 2 ^ nat b" by simp
  then have cb: "(of_int c :: rat) \<le> of_int (2 ^ nat b)"
    by (simp only: of_int_le_iff)
  have "1 / x \<le> of_int c"
    by (simp add: c_def)
  also note cb
  also have "(of_int (2 ^ nat b) :: rat) = 2 ^ nat b" by simp
  finally have "1 / x \<le> 2 ^ nat b" .
  then have "1 / 2 ^ nat b \<le> x"
    using assms by (simp add: field_simps)
  moreover have "ilog2 x = - b"
    using False by (simp add: ilog2_def b_def c_def)
  ultimately show ?thesis
    using b by (simp add: power_int_minus_divide power_int_nonneg_exp)
qed

lemma ilog2_less:
  assumes "0 < x" "x < 2 powi k"
  shows "ilog2 x < k"
proof (rule ccontr)
  assume "\<not> ilog2 x < k"
  then have "k \<le> ilog2 x" by simp
  then have "(2::rat) powi k \<le> 2 powi ilog2 x"
    by (intro power_int_increasing) simp_all
  with ilog2_le [OF assms(1)] assms(2) show False by simp
qed

lemma roundHalfEven_error: "\<bar>of_int (roundHalfEven z) - z\<bar> \<le> 1 / 2"
proof -
  define f where "f = \<lfloor>z\<rfloor>"
  define d where "d = z - of_int f"
  have d: "0 \<le> d" "d < 1"
    unfolding d_def f_def by linarith+
  have z: "z = of_int f + d" by (simp add: d_def)
  consider "d < 1 / 2" | "1 / 2 < d" | "d = 1 / 2" by linarith
  then show ?thesis
  proof cases
    case 1
    then have "roundHalfEven z = f" by (simp add: roundHalfEven_def f_def d_def Let_def)
    with d 1 z show ?thesis by simp
  next
    case 2
    then have "roundHalfEven z = f + 1" by (simp add: roundHalfEven_def f_def d_def Let_def)
    with d 2 z show ?thesis by simp
  next
    case 3
    then have "roundHalfEven z = f \<or> roundHalfEven z = f + 1"
      by (simp add: roundHalfEven_def f_def d_def Let_def)
    with 3 z show ?thesis by auto
  qed
qed

lemma roundHalfEven_of_int [simp]: "roundHalfEven (of_int k) = k"
  by (simp add: roundHalfEven_def)

lemma roundHalfEven_nonneg: "0 \<le> z \<Longrightarrow> 0 \<le> roundHalfEven z"
  by (auto simp: roundHalfEven_def Let_def)

lemma spacing_pos: "0 < spacing p emin a"
  by (simp add: spacing_def)

lemma roundedMagnitude_error:
  "\<bar>roundedMagnitude p emin a - a\<bar> \<le> spacing p emin a / 2"
proof -
  define s where "s = spacing p emin a"
  have s: "0 < s" by (simp add: s_def spacing_pos)
  have "roundedMagnitude p emin a - a = (of_int (roundHalfEven (a / s)) - a / s) * s"
    using s by (simp add: roundedMagnitude_def s_def algebra_simps)
  then have "\<bar>roundedMagnitude p emin a - a\<bar> = \<bar>of_int (roundHalfEven (a / s)) - a / s\<bar> * s"
    using s by (simp add: abs_mult)
  also have "\<dots> \<le> (1 / 2) * s"
    using s roundHalfEven_error [of "a / s"] by (intro mult_right_mono) simp_all
  finally show ?thesis by (simp add: s_def)
qed

lemma roundedMagnitude_nonneg: "0 \<le> a \<Longrightarrow> 0 \<le> roundedMagnitude p emin a"
  using spacing_pos [of p emin a]
  by (simp add: roundedMagnitude_def roundHalfEven_nonneg)

lemma two_powi_add: "(2::rat) powi (a + b) = 2 powi a * 2 powi b"
  by (simp add: power_int_add)

lemma half_spacing: "spacing p emin a / 2 = 2 powi (max (ilog2 a) emin - p)"
proof -
  have "max (ilog2 a) emin - (p - 1) = (max (ilog2 a) emin - p) + 1" by simp
  then have "spacing p emin a = 2 powi (max (ilog2 a) emin - p) * 2 powi 1"
    unfolding spacing_def by (simp only: two_powi_add)
  then show ?thesis by simp
qed

lemma spacing_relative:
  assumes "0 < a"
  shows "spacing p emin a / 2 \<le> a * 2 powi (- p) + 2 powi (emin - p)"
proof (cases "emin \<le> ilog2 a")
  case True
  then have "spacing p emin a / 2 = 2 powi (ilog2 a + (- p))"
    by (simp add: half_spacing max_def)
  also have "\<dots> = 2 powi ilog2 a * 2 powi (- p)"
    by (rule two_powi_add)
  also have "\<dots> \<le> a * 2 powi (- p)"
    using ilog2_le [OF assms] by (intro mult_right_mono) simp_all
  finally show ?thesis
    by (simp add: add_increasing2)
next
  case False
  then have "spacing p emin a / 2 = 2 powi (emin - p)"
    by (simp add: half_spacing max_def)
  moreover have "0 \<le> a * 2 powi (- p)"
    using assms by simp
  ultimately show ?thesis by simp
qed

lemma spacing_absolute:
  assumes "0 < a" "a < 2 powi k" "emin < k"
  shows "spacing p emin a / 2 \<le> 2 powi (k - 1 - p)"
proof -
  have "ilog2 a < k" using assms(1,2) by (rule ilog2_less)
  with assms(3) have "max (ilog2 a) emin - p \<le> k - 1 - p" by simp
  then show ?thesis
    unfolding half_spacing by (intro power_int_increasing) simp_all
qed

lemma roundTo_pos:
  assumes "0 < x"
  shows "(roundTo p emin emax x = PosInfinity \<and> 2 powi (emax + 1) \<le> roundedMagnitude p emin x)
       \<or> (roundTo p emin emax x = Num (roundedMagnitude p emin x)
            \<and> roundedMagnitude p emin x < 2 powi (emax + 1))"
  using assms by (simp add: roundTo_def Let_def)

lemma roundTo_zero [simp]: "roundTo p emin emax 0 = Num 0"
  by (simp add: roundTo_def)

lemma round64_zero [simp]: "round64 0 = Num 0"
  by (simp add: round64_def)

lemma round64_pos:
  assumes "0 < x"
  shows "round64 x = PosInfinity
       \<or> (\<exists>y. round64 x = Num y \<and> 0 \<le> y \<and> y = roundedMagnitude 53 (- 1022) x)"
  using roundTo_pos [OF assms, of 53 "- 1022" 1023] roundedMagnitude_nonneg [of x 53 "- 1022"] assms
  unfolding round64_def by auto

lemma round64_error:
  assumes "0 < x" "round64 x = Num y"
  shows "\<bar>y - x\<bar> \<le> x / 2 ^ 53 + 1 / 2 ^ 54"
proof -
  have y: "y = roundedMagnitude 53 (- 1022) x"
    using round64_pos [OF assms(1)] assms(2) by auto
  have "\<bar>y - x\<bar> \<le> spacing 53 (- 1022) x / 2"
    unfolding y by (rule roundedMagnitude_error)
  also have "\<dots> \<le> x * 2 powi (- 53) + 2 powi (- 1022 - 53)"
    using assms(1) by (rule spacing_relative)
  also have "(2::rat) powi (- 1022 - 53) \<le> 2 powi (- 54)"
    by (intro power_int_increasing) simp_all
  finally show ?thesis
    by (simp add: power_int_minus_divide)
qed

lemma round64_error_below:
  assumes "0 < x" "round64 x = Num y" "x < 2 ^ 51"
  shows "\<bar>y - x\<bar> \<le> 1 / 8"
proof -
  have y: "y = roundedMagnitude 53 (- 1022) x"
    using round64_pos [OF assms(1)] assms(2) by auto
  have "x < 2 powi 51" using assms(3) by simp
  then have "spacing 53 (- 1022) x / 2 \<le> 2 powi (51 - 1 - 53)"
    using assms(1) by (intro spacing_absolute) simp_all
  with roundedMagnitude_error [of 53 "- 1022" x] show ?thesis
    by (simp add: y power_int_minus_divide)
qed

lemma round64_finite:
  assumes "0 < x" "x < 2 ^ 52"
  shows "\<exists>y. round64 x = Num y"
proof -
  have "\<bar>roundedMagnitude 53 (- 1022) x - x\<bar> \<le> spacing 53 (- 1022) x / 2"
    by (rule roundedMagnitude_error)
  also have "\<dots> \<le> x * 2 powi (- 53) + 2 powi (- 1022 - 53)"
    using assms(1) by (rule spacing_relative)
  finally have err: "\<bar>roundedMagnitude 53 (- 1022) x - x\<bar> \<le> x / 2 ^ 53 + 2 powi (- 1022 - 53)"
    by (simp add: power_int_minus_divide)
  have "(2::rat) powi (- 1022 - 53) \<le> 2 powi 0"
    by (intro power_int_increasing) simp_all
  with err assms have "roundedMagnitude 53 (- 1022) x < 2 ^ 54"
    by simp
  also have "(2::rat) ^ 54 = 2 powi 54" by simp
  also have "\<dots> \<le> 2 powi (1023 + 1)"
    by (intro power_int_increasing) simp_all
  finally have lt: "roundedMagnitude 53 (- 1022) x < 2 powi (1023 + 1)" .
  from roundTo_pos [OF assms(1), of 53 "- 1022" 1023]
  consider "2 powi (1023 + 1) \<le> roundedMagnitude 53 (- 1022) x"
    | "round64 x = Num (roundedMagnitude 53 (- 1022) x)"
    unfolding round64_def by blast
  then show ?thesis
  proof cases
    case 1
    with lt show ?thesis by linarith
  next
    case 2
    then show ?thesis by blast
  qed
qed


subsection \<open>The array-filling loop\<close>

lemma forLoop_eq:
  "length arr = n \<Longrightarrow> i \<le> n \<Longrightarrow> forLoop n body i arr = take i arr @ map body [i..<n]"
proof (induction n body i arr rule: forLoop.induct)
  case (1 n body i arr)
  show ?case
  proof (cases "i < n")
    case True
    have "forLoop n body i arr = forLoop n body (Suc i) (arr[i := body i])"
      using True by (subst forLoop.simps) simp
    also have "\<dots> = take (Suc i) (arr[i := body i]) @ map body [Suc i..<n]"
      using True "1.prems" by (intro "1.IH") auto
    also have "take (Suc i) (arr[i := body i]) = take i arr @ [body i]"
      using True "1.prems" by (simp add: take_Suc_conv_app_nth)
    finally show ?thesis
      using True by (simp add: upt_conv_Cons)
  next
    case False
    with "1.prems" have "i = n" by simp
    then show ?thesis
      using "1.prems" by (subst forLoop.simps) simp
  qed
qed

lemma forLoop_fresh: "forLoop n body 0 (replicate n z) = map body [0..<n]"
  using forLoop_eq [of "replicate n z" n 0 body] by simp

lemma quantizeArray_map: "quantizeArray data = map floatToInt16 data"
proof -
  have "map (\<lambda>i. floatToInt16 (readFloat data (int i))) [0..<length data] =
        map (\<lambda>i. floatToInt16 (data ! i)) [0..<length data]"
    by (rule map_cong) (auto simp: readFloat_def)
  also have "\<dots> = map floatToInt16 (map (\<lambda>i. data ! i) [0..<length data])"
    by simp
  also have "map (\<lambda>i. data ! i) [0..<length data] = data"
    by (rule map_nth)
  finally show ?thesis
    by (simp add: quantizeArray_def forLoop_fresh)
qed

lemma outputDataOf_map:
  "outputDataOf inputData ratio n = map (interpolate inputData ratio) [0..<n]"
  by (simp add: outputDataOf_def forLoop_fresh)

subsection \<open>Quantization stays inside the 16-bit range\<close>

lemma Math_trunc_range:
  assumes "- 32768 \<le> x" "x \<le> 32767"
  shows "- 32768 \<le> Math_trunc x" and "Math_trunc x \<le> 32767"
proof -
  have neg: "\<lfloor>- x\<rfloor> \<le> 32768"
    using floor_mono [of "- x" 32768] assms(1) by simp
  have pos: "\<lfloor>x\<rfloor> \<le> 32767"
    using floor_mono [of x 32767] assms(2) by simp
  show "- 32768 \<le> Math_trunc x"
  proof (cases "x < 0")
    case True
    then have "Math_trunc x = - \<lfloor>- x\<rfloor>" by (simp add: Math_trunc_def)
    with neg show ?thesis by linarith
  next
    case False
    then have "Math_trunc x = \<lfloor>x\<rfloor>" and "0 \<le> \<lfloor>x\<rfloor>" by (simp_all add: Math_trunc_def)
    then show ?thesis by linarith
  qed
  show "Math_trunc x \<le> 32767"
  proof (cases "x < 0")
    case True
    then have "Math_trunc x = - \<lfloor>- x\<rfloor>" and "0 \<le> \<lfloor>- x\<rfloor>" by (simp_all add: Math_trunc_def)
    then show ?thesis by linarith
  next
    case False
    then have "Math_trunc x = \<lfloor>x\<rfloor>" by (simp add: Math_trunc_def)
    with pos show ?thesis by linarith
  qed
qed

lemma wrap16_id:
  fixes k :: int
  assumes "- 32768 \<le> k" "k \<le> 32767"
  shows "(let m = k mod 65536 in if 32768 \<le> m then m - 65536 else m) = k"
proof (cases "0 \<le> k")
  case True
  then have "k mod 65536 = k" using assms by simp
  then show ?thesis using assms by (simp add: Let_def)
next
  case False
  have "(k + 65536) mod 65536 = k + 65536"
    by (rule mod_pos_pos_trivial) (use assms False in linarith)+
  then have "k mod 65536 = k + 65536" by simp
  then show ?thesis using assms False by (simp add: Let_def)
qed

lemma ToInt16_in_range:
  assumes "- 32768 \<le> x" "x \<le> 32767"
  shows "ToInt16 (Num x) = Math_trunc x"
  using wrap16_id [OF Math_trunc_range [OF assms]] by (simp add: ToInt16_def)

lemma scaleClamped_range: "- 32768 \<le> scaleClamped x" "scaleClamped x \<le> 32767"
  by (auto simp: scaleClamped_def Let_def max_def min_def)

lemma floatToInt16_Num: "floatToInt16 (Num x) = Math_trunc (scaleClamped x)"
proof -
  define s where "s = max (- 1) (min 1 x)"
  have "floatToInt16 (Num x) = ToInt16 (if s < 0 then Num (s * 32768) else Num (s * 32767))"
    unfolding floatToInt16_def s_def by (simp only: clampSample.simps Let_def number.case)
  also have "\<dots> = ToInt16 (Num (scaleClamped x))"
    unfolding scaleClamped_def s_def [symmetric] by (simp only: Let_def if_distrib [of Num])
  finally have "floatToInt16 (Num x) = ToInt16 (Num (scaleClamped x))" .
  then show ?thesis
    by (simp add: ToInt16_in_range scaleClamped_range)
qed

lemma floatToInt16_other:
  "floatToInt16 NaN = 0" "floatToInt16 PosInfinity = 32767" "floatToInt16 NegInfinity = - 32768"
  by (simp_all add: floatToInt16_def ToInt16_def Math_trunc_def)

lemma floatToInt16_quantizeSample: "floatToInt16 = quantizeSample"
proof
  fix v show "floatToInt16 v = quantizeSample v"
    by (cases v) (simp_all add: quantizeSample_def floatToInt16_Num floatToInt16_other)
qed

lemma quantizeSample_boundaries:
  "quantizeSample (Num 1) = 32767" "quantizeSample (Num (- 1)) = - 32768"
  "quantizeSample (Num 0) = 0"
  by (simp_all add: quantizeSample_def scaleClamped_def Math_trunc_def)


subsection \<open>The output length and the source positions\<close>

lemma maxFloat32ArrayLength_eq: "maxFloat32ArrayLength = 2 ^ 51 - 1"
  by (simp add: maxFloat32ArrayLength_def)

lemma outputLengthOf_Inr:
  assumes "outputLengthOf n sourceSampleRate targetSampleRate = Inr L" "0 < L"
  shows "\<exists>ratio q. divide64 sourceSampleRate targetSampleRate = Num ratio \<and> ratio \<noteq> 0
           \<and> divide64 (of_nat n) ratio = Num q
           \<and> int L = Math_round q \<and> Math_round q \<le> maxFloat32ArrayLength"
proof (cases "divide64 sourceSampleRate targetSampleRate")
  case (Num ratio)
  show ?thesis
  proof (cases "divide64 (of_nat n) ratio")
    case q: (Num q)
    have "newFloat32ArrayLength (Num (of_int (Math_round q))) = Inr L"
      using assms(1) Num q by (simp add: outputLengthOf_def lengthOverRatio_def)
    then have "int L = Math_round q \<and> Math_round q \<le> maxFloat32ArrayLength"
      using assms(2) by (auto simp: newFloat32ArrayLength_def split: if_splits)
    moreover have "ratio \<noteq> 0"
      using q by (auto simp: divide64_def split: if_splits)
    ultimately show ?thesis using Num q by blast
  qed (use assms Num in \<open>auto simp: outputLengthOf_def lengthOverRatio_def newFloat32ArrayLength_def\<close>)
qed (use assms in \<open>auto simp: outputLengthOf_def lengthOverRatio_def newFloat32ArrayLength_def
      maxFloat32ArrayLength_eq split: if_splits\<close>)

lemma srcIndex_in_bounds:
  assumes rates: "0 < sourceSampleRate" "0 < targetSampleRate"
    and len: "int n \<le> maxFloat32ArrayLength"
    and L: "outputLengthOf n sourceSampleRate targetSampleRate = Inr L" and i: "i < L"
  shows "\<exists>ratio srcIndex. divide64 sourceSampleRate targetSampleRate = Num ratio
           \<and> times64 (Num (of_nat i)) (Num ratio) = Num srcIndex
           \<and> 0 \<le> srcIndex \<and> srcIndex < of_nat n"
proof -
  from outputLengthOf_Inr [OF L] i obtain ratio q where
    ratio: "divide64 sourceSampleRate targetSampleRate = Num ratio" and r0: "ratio \<noteq> 0"
    and q: "divide64 (of_nat n) ratio = Num q"
    and Lq: "int L = Math_round q" and Lmax: "Math_round q \<le> maxFloat32ArrayLength"
    by (metis gr_implies_not0 neq0_conv)
  have "round64 (sourceSampleRate / targetSampleRate) = Num ratio"
    using ratio rates by (simp add: divide64_def)
  with round64_pos [of "sourceSampleRate / targetSampleRate"] rates have "0 \<le> ratio"
    by auto
  with r0 have rpos: "0 < ratio" by simp
  have q': "round64 (of_nat n / ratio) = Num q"
    using q r0 by (simp add: divide64_def)
  have n0: "n \<noteq> 0"
  proof
    assume "n = 0"
    with q' have "q = 0" by simp
    with Lq i show False by simp
  qed
  define x where "x = of_nat n / ratio"
  have xpos: "0 < x" using n0 rpos by (simp add: x_def)
  have xr: "x * ratio = of_nat n" using rpos by (simp add: x_def)
  have qx: "round64 x = Num q" using q' by (simp add: x_def)
  have round_le: "of_int (Math_round q) \<le> q + 1 / 2"
    unfolding Math_round_def by (rule of_int_floor_le)
  have iL: "of_nat i + 1 \<le> (of_int (Math_round q) :: rat)"
  proof -
    have "int i + 1 \<le> Math_round q" using i Lq by simp
    then have "(of_int (int i + 1) :: rat) \<le> of_int (Math_round q)"
      by (simp only: of_int_le_iff)
    then show ?thesis by simp
  qed
  have x51: "x < 2 ^ 51"
  proof (rule ccontr)
    assume "\<not> x < 2 ^ 51"
    then have big: "2 ^ 51 \<le> x" by simp
    have "\<bar>q - x\<bar> \<le> x / 2 ^ 53 + 1 / 2 ^ 54"
      using xpos qx by (rule round64_error)
    then have "x - x / 2 ^ 53 - 1 / 2 ^ 54 \<le> q" by linarith
    with big have "2 ^ 51 - 1 / 2 \<le> q" by simp
    moreover have "(of_int (Math_round q) :: rat) \<le> of_int (2 ^ 51 - 1)"
      using Lmax unfolding maxFloat32ArrayLength_eq by (simp only: of_int_le_iff)
    moreover have "q + 1 / 2 < of_int (Math_round q) + 1"
      unfolding Math_round_def by linarith
    ultimately show False by simp
  qed
  have "\<bar>q - x\<bar> \<le> 1 / 8"
    using xpos qx x51 by (rule round64_error_below)
  with round_le iL have "of_nat i \<le> x - 3 / 8" by linarith
  then have "of_nat i * ratio \<le> (x - 3 / 8) * ratio"
    using rpos by (intro mult_right_mono) simp_all
  then have prod: "of_nat i * ratio \<le> of_nat n - 3 / 8 * ratio"
    using xr by (simp add: algebra_simps)
  have rbig: "of_nat n < 2 ^ 51 * ratio"
    using x51 rpos by (simp add: x_def field_simps)
  have n1: "(1::rat) \<le> of_nat n" using n0 by simp
  have t: "times64 (Num (of_nat i)) (Num ratio) = round64 (of_nat i * ratio)" by simp
  show ?thesis
  proof (cases "i = 0")
    case True
    with t ratio n0 show ?thesis by simp
  next
    case False
    then have ppos: "0 < of_nat i * ratio" using rpos by simp
    have "(of_int (int n) :: rat) \<le> of_int (2 ^ 51 - 1)"
      using len unfolding maxFloat32ArrayLength_eq by (simp only: of_int_le_iff)
    then have nle: "(of_nat n :: rat) \<le> 2 ^ 51 - 1" by simp
    with prod rpos have "of_nat i * ratio < 2 ^ 52" by simp
    with ppos obtain srcIndex where s: "round64 (of_nat i * ratio) = Num srcIndex"
      using round64_finite by blast
    have "\<bar>srcIndex - of_nat i * ratio\<bar> \<le> of_nat i * ratio / 2 ^ 53 + 1 / 2 ^ 54"
      using ppos s by (rule round64_error)
    with prod rbig n1 have "srcIndex < of_nat n" by simp
    moreover have "0 \<le> srcIndex"
      using round64_pos [OF ppos] s by auto
    ultimately show ?thesis
      using ratio t s by simp
  qed
qed

lemma resampleAudio_identity: "resampleAudio inputData r r = Inr (map quantizeSample inputData)"
  by (simp add: resampleAudio_def quantizeArray_map floatToInt16_quantizeSample)

lemma resampleAudio_interpolation:
  assumes "sourceSampleRate \<noteq> targetSampleRate"
  shows "resampleAudio inputData sourceSampleRate targetSampleRate =
     (case outputLengthOf (length inputData) sourceSampleRate targetSampleRate of
        Inl e \<Rightarrow> Inl e
      | Inr outputLength \<Rightarrow>
          Inr (map quantizeSample
                (outputDataOf inputData (divide64 sourceSampleRate targetSampleRate) outputLength)))"
  using assms
  by (simp add: resampleAudio_def quantizeArray_map floatToInt16_quantizeSample split: sum.splits)

lemma outputLengthOf_finite:
  assumes "divide64 sourceSampleRate targetSampleRate = Num ratio"
    and "divide64 (of_nat n) ratio = Num q"
  shows "outputLengthOf n sourceSampleRate targetSampleRate =
     (if Math_round q < 0 \<or> maxFloat32ArrayLength < Math_round q then Inl RangeError
      else Inr (nat (Math_round q)))"
  using assms by (simp add: outputLengthOf_def lengthOverRatio_def newFloat32ArrayLength_def)

lemma interpolate_finite:
  assumes "round64 (of_nat i * ratio) = Num srcIndex"
  shows "interpolate inputData (Num ratio) i =
     fround (plus64
       (times64 (readFloat inputData \<lfloor>srcIndex\<rfloor>)
          (minus64 (Num 1) (round64 (srcIndex - of_int \<lfloor>srcIndex\<rfloor>))))
       (times64 (readFloat inputData (min (\<lfloor>srcIndex\<rfloor> + 1) (int (length inputData) - 1)))
          (round64 (srcIndex - of_int \<lfloor>srcIndex\<rfloor>))))"
  using assms by (simp add: interpolate_def interpolateAt_def Let_def)

lemma reads_in_bounds:
  assumes "0 < sourceSampleRate" "0 < targetSampleRate"
    and "int (length inputData) \<le> maxFloat32ArrayLength"
    and "outputLengthOf (length inputData) sourceSampleRate targetSampleRate = Inr L" and "i < L"
  shows "\<exists>ratio srcIndex. divide64 sourceSampleRate targetSampleRate = Num ratio
           \<and> round64 (of_nat i * ratio) = Num srcIndex
           \<and> 0 \<le> \<lfloor>srcIndex\<rfloor> \<and> \<lfloor>srcIndex\<rfloor> \<le> int (length inputData) - 1
           \<and> 0 \<le> min (\<lfloor>srcIndex\<rfloor> + 1) (int (length inputData) - 1)
           \<and> min (\<lfloor>srcIndex\<rfloor> + 1) (int (length inputData) - 1) \<le> int (length inputData) - 1"
proof -
  from srcIndex_in_bounds [OF assms] obtain ratio srcIndex where
    r: "divide64 sourceSampleRate targetSampleRate = Num ratio"
    and s: "times64 (Num (of_nat i)) (Num ratio) = Num srcIndex"
    and lo: "0 \<le> srcIndex" and hi: "srcIndex < of_nat (length inputData)"
    by blast
  have "srcIndex < of_int (int (length inputData))" using hi by simp
  then have "\<lfloor>srcIndex\<rfloor> < int (length inputData)"
    by (simp only: floor_less_iff)
  moreover have "0 \<le> \<lfloor>srcIndex\<rfloor>" using lo by simp
  ultimately show ?thesis
    using r s by auto
qed

subsection \<open>Claims about the resampler\<close>

lemmas resample_eval =
  outputLengthOf_def lengthOverRatio_def divide64_def newFloat32ArrayLength_def
  maxFloat32ArrayLength_def Math_round_def outputDataOf_map interpolate_def interpolateAt_def
  minus64_def readFloat_def upt_conv_Cons round_eval

text \<open>The division and \<open>Math.round\<close> are those of doubles: 240 samples from 12000 to
  11025 give \<open>Math.round(220.49999999999997) = 220\<close> samples, where the exact quotient is
  220.5.\<close>

lemma outputLength_12000_11025: "outputLengthOf 240 12000 11025 = Inr 220"
  by (simp add: resample_eval)

text \<open>So is the source position: at the ratio of 37800 to 16000 the product for index 400
  is just below 945.\<close>

lemma srcIndex_400_37800:
  "times64 (Num 400) (divide64 37800 16000) = Num (8312307905986559 / 8796093022208)"
  "\<lfloor>8312307905986559 / 8796093022208 :: rat\<rfloor> = 944"
  by (simp_all add: resample_eval)

text \<open>The interpolated sample is stored as a 32-bit float before it is quantized: the
  sample half way between \<open>1 - 2^-24\<close> (16777215 / 16777216) and 1 is stored as 1.\<close>

lemma float32_store_example:
  "resampleAudio [Num (16777215 / 16777216), Num 1] 8000 16000 =
     Inr [32766, 32767, 32767, 32767]"
proof -
  have h: "(8000::rat) \<noteq> 16000" by simp
  have L: "outputLengthOf (length [Num (16777215 / 16777216), Num 1]) 8000 16000 = Inr 4"
    by (simp add: resample_eval)
  have pre: "outputDataOf [Num (16777215 / 16777216), Num 1] (divide64 8000 16000) 4 =
      [Num (16777215 / 16777216), Num 1, Num 1, Num 1]"
    by (simp add: resample_eval)
  have "resampleAudio [Num (16777215 / 16777216), Num 1] 8000 16000 =
      Inr (map quantizeSample [Num (16777215 / 16777216), Num 1, Num 1, Num 1])"
    using resampleAudio_interpolation [OF h, of "[Num (16777215 / 16777216), Num 1]"]
    unfolding L by (simp only: sum.case pre)
  then show ?thesis
    by (simp add: quantizeSample_def scaleClamped_def Math_trunc_def floor_rat_numeral)
qed

text \<open>
  C7. When the source rate equals the target rate, \<open>resampleAudio\<close> does not interpolate:
  the output has one sample for each input sample, in the same order (so the same length),
  and each of them is the direct clamp-and-quantize of the input sample at its position.
  This holds for every block and every rate.
\<close>

theorem identity_resampling:
  "sourceSampleRate = targetSampleRate \<Longrightarrow>
   resampleAudio inputData sourceSampleRate targetSampleRate =
     Inr (map quantizeSample inputData)"
  by (simp add: resampleAudio_identity)

theorem identity_resampling_witness:
  "resampleAudio [Num 1, Num (- 1 / 2), Num (1 / 3), Num 7, NaN] 16000 16000 =
     Inr [32767, - 16384, 10922, 32767, 0]"
  using identity_resampling [of 16000 16000 "[Num 1, Num (- 1 / 2), Num (1 / 3), Num 7, NaN]"]
  by (simp add: quantizeSample_def scaleClamped_def Math_trunc_def floor_rat_numeral)

text \<open>
  C1, as the code has it. With a source rate of -16000 and a target rate of 16000 the ratio
  is -1 and the length computed for a block of two samples is -2: the array constructor
  throws, and \<open>resampleAudio\<close> produces no output.
\<close>

theorem negative_rate_throws:
  "resampleAudio [Num 0, Num 0] (- 16000) 16000 = Inl RangeError"
  by (simp add: resampleAudio_def resample_eval)

text \<open>
  C1, amended. For rates with \<open>sourceRate \<noteq> targetRate\<close>, let \<open>ratio = sourceRate /
  targetRate\<close> and \<open>outputLength = Math.round(inputLength / ratio)\<close>, both computed in
  double precision. \<open>resampleAudio\<close> throws a \<open>RangeError\<close> when \<open>outputLength\<close> is
  negative, infinite or above the limit of a typed array; otherwise it returns
  \<open>outputLength\<close> samples, and the sample at each output index \<open>i\<close> is the quantization of
  the pre-quantization sample, which is the 32-bit float nearest to
  \<open>input[floorIdx] * (1 - t) + input[ceilIdx] * t\<close> with \<open>floorIdx = floor(i * ratio)\<close>,
  \<open>ceilIdx = min(floorIdx + 1, inputLength - 1)\<close> and \<open>t = i * ratio - floorIdx\<close>, each
  operation being the one of doubles. For positive rates and a block within the limit of a
  typed array, \<open>floorIdx\<close> lies inside the block.
\<close>

theorem interpolation_resampling:
  assumes "sourceSampleRate \<noteq> targetSampleRate"
  shows "resampleAudio inputData sourceSampleRate targetSampleRate =
      (case outputLengthOf (length inputData) sourceSampleRate targetSampleRate of
         Inl e \<Rightarrow> Inl e
       | Inr outputLength \<Rightarrow>
           Inr (map (\<lambda>i. quantizeSample
                      (interpolate inputData (divide64 sourceSampleRate targetSampleRate) i))
                 [0..<outputLength]))
    \<and> (divide64 sourceSampleRate targetSampleRate = Num ratio \<longrightarrow>
        divide64 (of_nat (length inputData)) ratio = Num q \<longrightarrow>
        outputLengthOf (length inputData) sourceSampleRate targetSampleRate =
          (if Math_round q < 0 \<or> maxFloat32ArrayLength < Math_round q then Inl RangeError
           else Inr (nat (Math_round q))))
    \<and> (round64 (of_nat i * ratio) = Num srcIndex \<longrightarrow>
        interpolate inputData (Num ratio) i =
          fround (plus64
            (times64 (readFloat inputData \<lfloor>srcIndex\<rfloor>)
               (minus64 (Num 1) (round64 (srcIndex - of_int \<lfloor>srcIndex\<rfloor>))))
            (times64 (readFloat inputData (min (\<lfloor>srcIndex\<rfloor> + 1) (int (length inputData) - 1)))
               (round64 (srcIndex - of_int \<lfloor>srcIndex\<rfloor>)))))
    \<and> (0 < sourceSampleRate \<longrightarrow> 0 < targetSampleRate \<longrightarrow>
        int (length inputData) \<le> maxFloat32ArrayLength \<longrightarrow>
        outputLengthOf (length inputData) sourceSampleRate targetSampleRate = Inr L \<longrightarrow> k < L \<longrightarrow>
        (\<exists>r p. divide64 sourceSampleRate targetSampleRate = Num r
           \<and> round64 (of_nat k * r) = Num p
           \<and> 0 \<le> \<lfloor>p\<rfloor> \<and> \<lfloor>p\<rfloor> \<le> int (length inputData) - 1))"
proof (intro conjI impI)
  show "resampleAudio inputData sourceSampleRate targetSampleRate =
      (case outputLengthOf (length inputData) sourceSampleRate targetSampleRate of
         Inl e \<Rightarrow> Inl e
       | Inr outputLength \<Rightarrow>
           Inr (map (\<lambda>i. quantizeSample
                      (interpolate inputData (divide64 sourceSampleRate targetSampleRate) i))
                 [0..<outputLength]))"
    using resampleAudio_interpolation [OF assms, of inputData]
    by (simp add: outputDataOf_map comp_def split: sum.splits)
next
  assume "divide64 sourceSampleRate targetSampleRate = Num ratio"
    and "divide64 (of_nat (length inputData)) ratio = Num q"
  then show "outputLengthOf (length inputData) sourceSampleRate targetSampleRate =
          (if Math_round q < 0 \<or> maxFloat32ArrayLength < Math_round q then Inl RangeError
           else Inr (nat (Math_round q)))"
    by (rule outputLengthOf_finite)
next
  assume "round64 (of_nat i * ratio) = Num srcIndex"
  then show "interpolate inputData (Num ratio) i =
          fround (plus64
            (times64 (readFloat inputData \<lfloor>srcIndex\<rfloor>)
               (minus64 (Num 1) (round64 (srcIndex - of_int \<lfloor>srcIndex\<rfloor>))))
            (times64 (readFloat inputData (min (\<lfloor>srcIndex\<rfloor> + 1) (int (length inputData) - 1)))
               (round64 (srcIndex - of_int \<lfloor>srcIndex\<rfloor>))))"
    by (rule interpolate_finite)
next
  assume "0 < sourceSampleRate" "0 < targetSampleRate"
    "int (length inputData) \<le> maxFloat32ArrayLength"
    "outputLengthOf (length inputData) sourceSampleRate targetSampleRate = Inr L" "k < L"
  from reads_in_bounds [OF this]
  show "\<exists>r p. divide64 sourceSampleRate targetSampleRate = Num r
           \<and> round64 (of_nat k * r) = Num p
           \<and> 0 \<le> \<lfloor>p\<rfloor> \<and> \<lfloor>p\<rfloor> \<le> int (length inputData) - 1"
    by blast
qed

theorem interpolation_resampling_witness:
  "resampleAudio [Num 1, Num (- 1), Num 0, Num (1 / 2)] 8000 16000 =
     Inr [32767, 0, - 32768, - 16384, 0, 8191, 16383, 16383]"
proof -
  have h: "(8000::rat) \<noteq> 16000" by simp
  have L: "outputLengthOf (length [Num 1, Num (- 1), Num 0, Num (1 / 2)]) 8000 16000 = Inr 8"
    by (simp add: resample_eval)
  have r: "divide64 8000 16000 = Num (1 / 2)"
    by (simp add: resample_eval)
  have pre: "map (interpolate [Num 1, Num (- 1), Num 0, Num (1 / 2)] (Num (1 / 2))) [0..<8] =
      [Num 1, Num 0, Num (- 1), Num (- 1 / 2), Num 0, Num (1 / 4), Num (1 / 2), Num (1 / 2)]"
    by (simp add: resample_eval)
  have "map (\<lambda>i. quantizeSample (interpolate [Num 1, Num (- 1), Num 0, Num (1 / 2)] (Num (1 / 2)) i))
        [0..<8] =
      map quantizeSample
        (map (interpolate [Num 1, Num (- 1), Num 0, Num (1 / 2)] (Num (1 / 2))) [0..<8])"
    by (simp only: map_map comp_def)
  also have "\<dots> = [32767, 0, - 32768, - 16384, 0, 8191, 16383, 16383]"
    unfolding pre by (simp add: quantizeSample_def scaleClamped_def Math_trunc_def floor_rat_numeral)
  finally have out: "map (\<lambda>i. quantizeSample
        (interpolate [Num 1, Num (- 1), Num 0, Num (1 / 2)] (Num (1 / 2)) i)) [0..<8] =
      [32767, 0, - 32768, - 16384, 0, 8191, 16383, 16383]" .
  have "resampleAudio [Num 1, Num (- 1), Num 0, Num (1 / 2)] 8000 16000 =
      Inr (map (\<lambda>i. quantizeSample
        (interpolate [Num 1, Num (- 1), Num 0, Num (1 / 2)] (Num (1 / 2)) i)) [0..<8])"
    using interpolation_resampling [OF h, of "[Num 1, Num (- 1), Num 0, Num (1 / 2)]",
        THEN conjunct1]
    unfolding L r by (simp only: sum.case)
  then show ?thesis
    by (simp only: out)
qed


lemma quantizeSample_range: "- 32768 \<le> quantizeSample v" "quantizeSample v \<le> 32767"
  using Math_trunc_range [OF scaleClamped_range]
  by (cases v; simp add: quantizeSample_def)+

lemma scaleClamped_piecewise:
  "scaleClamped x =
     (if x \<le> - 1 then - 32768 else if x < 0 then x * 32768 else if x < 1 then x * 32767 else 32767)"
  by (simp add: scaleClamped_def Let_def max_def min_def)

text \<open>
  C6. On both paths every output sample of \<open>resampleAudio\<close> is the quantization of the
  sample before it (the input sample on the identity path, the stored interpolated sample
  on the other), and the loop body \<open>floatToInt16\<close> of both paths is that quantization: the
  sample is clamped to \<open>[-1, 1]\<close>, a negative value is scaled by 32768 and any other by
  32767, and the integer part is stored, always inside the signed 16-bit range. 1.0 gives
  32767, -1.0 gives -32768 and 0.0 gives 0.
\<close>

theorem resampleAudio_quantization:
  "resampleAudio inputData sourceSampleRate targetSampleRate =
     (if sourceSampleRate = targetSampleRate then Inr (map quantizeSample inputData)
      else case outputLengthOf (length inputData) sourceSampleRate targetSampleRate of
             Inl e \<Rightarrow> Inl e
           | Inr outputLength \<Rightarrow>
               Inr (map quantizeSample
                     (outputDataOf inputData (divide64 sourceSampleRate targetSampleRate)
                        outputLength)))
   \<and> floatToInt16 v = quantizeSample v
   \<and> quantizeSample (Num x) =
       Math_trunc (if x \<le> - 1 then - 32768 else if x < 0 then x * 32768
                   else if x < 1 then x * 32767 else 32767)
   \<and> - 32768 \<le> quantizeSample v \<and> quantizeSample v \<le> 32767
   \<and> floatToInt16 (Num 1) = 32767 \<and> floatToInt16 (Num (- 1)) = - 32768
   \<and> floatToInt16 (Num 0) = 0"
proof -
  have paths: "resampleAudio inputData sourceSampleRate targetSampleRate =
     (if sourceSampleRate = targetSampleRate then Inr (map quantizeSample inputData)
      else case outputLengthOf (length inputData) sourceSampleRate targetSampleRate of
             Inl e \<Rightarrow> Inl e
           | Inr outputLength \<Rightarrow>
               Inr (map quantizeSample
                     (outputDataOf inputData (divide64 sourceSampleRate targetSampleRate)
                        outputLength)))"
  proof (cases "sourceSampleRate = targetSampleRate")
    case True
    then show ?thesis by (simp add: resampleAudio_identity)
  next
    case False
    with resampleAudio_interpolation [OF False, of inputData] show ?thesis by simp
  qed
  have piecewise: "quantizeSample (Num x) =
       Math_trunc (if x \<le> - 1 then - 32768 else if x < 0 then x * 32768
                   else if x < 1 then x * 32767 else 32767)"
    by (simp only: quantizeSample_def number.case scaleClamped_piecewise)
  have loop_body: "floatToInt16 v = quantizeSample v"
    by (simp only: floatToInt16_quantizeSample)
  have bounds: "floatToInt16 (Num 1) = 32767" "floatToInt16 (Num (- 1)) = - 32768"
    "floatToInt16 (Num 0) = 0"
    using quantizeSample_boundaries by (simp_all only: floatToInt16_quantizeSample)
  show ?thesis
    using paths loop_body piecewise quantizeSample_range [of v] bounds
    by (intro conjI)
qed

theorem resampleAudio_quantization_witness:
  "resampleAudio [Num 1, Num (- 1), Num 0] 16000 16000 = Inr [32767, - 32768, 0] \<and>
   outputDataOf [Num 1, Num 0, Num (- 1), Num 0, Num 0, Num 0] (divide64 32000 16000) 3 =
     [Num 1, Num (- 1), Num 0] \<and>
   resampleAudio [Num 1, Num 0, Num (- 1), Num 0, Num 0, Num 0] 32000 16000 =
     Inr [32767, - 32768, 0]"
proof -
  note q = resampleAudio_quantization [THEN conjunct1]
  have a: "resampleAudio [Num 1, Num (- 1), Num 0] 16000 16000 = Inr [32767, - 32768, 0]"
    using q [of "[Num 1, Num (- 1), Num 0]" 16000 16000]
    by (simp add: quantizeSample_boundaries)
  have L: "outputLengthOf (length [Num 1, Num 0, Num (- 1), Num 0, Num 0, Num (0::rat)]) 32000 16000
      = Inr 3"
    by (simp add: resample_eval)
  have pre: "outputDataOf [Num 1, Num 0, Num (- 1), Num 0, Num 0, Num 0] (divide64 32000 16000) 3 =
      [Num 1, Num (- 1), Num 0]"
    by (simp add: resample_eval)
  have "resampleAudio [Num 1, Num 0, Num (- 1), Num 0, Num 0, Num 0] 32000 16000 =
      Inr (map quantizeSample
        (outputDataOf [Num 1, Num 0, Num (- 1), Num 0, Num 0, Num 0] (divide64 32000 16000) 3))"
    using q [of "[Num 1, Num 0, Num (- 1), Num 0, Num 0, Num 0]" 32000 16000]
    unfolding L by simp
  then have b: "resampleAudio [Num 1, Num 0, Num (- 1), Num 0, Num 0, Num 0] 32000 16000 =
      Inr [32767, - 32768, 0]"
    unfolding pre by (simp add: quantizeSample_boundaries)
  from a pre b show ?thesis by (intro conjI)
qed

text \<open>
  C10, as the code has it. With the positive rates 1 and \<open>10^17\<close> the length computed for
  a block of one sample is \<open>10^17\<close>, above the limit of a typed array: the constructor
  throws, and \<open>resampleAudio\<close> returns nothing.
\<close>

theorem huge_length_throws:
  "resampleAudio [Num 0] 1 100000000000000000 = Inl RangeError"
  by (simp add: resampleAudio_def resample_eval)

text \<open>
  C10, amended. For positive rates and an input block within the limit of a typed array:
  whenever the array constructor accepts the output length \<open>Math.round(inputLength /
  ratio)\<close>, computed in double precision, \<open>resampleAudio\<close> returns an array of that length
  (of the input length when the rates are equal) and every read of the interpolation loop
  is inside the block: for each output index \<open>i\<close> below the length, \<open>i * ratio\<close> is finite
  and both \<open>floor(i * ratio)\<close> and \<open>min(floor(i * ratio) + 1, inputLength - 1)\<close> lie in
  \<open>[0, inputLength - 1]\<close>, so that the read returns an element of the block and never
  \<open>undefined\<close>. When the constructor refuses the length and the rates differ,
  \<open>resampleAudio\<close> throws a \<open>RangeError\<close>.
\<close>

theorem interpolation_reads_in_bounds:
  assumes "0 < sourceSampleRate" "0 < targetSampleRate"
    and "int (length inputData) \<le> maxFloat32ArrayLength"
  shows "(outputLengthOf (length inputData) sourceSampleRate targetSampleRate = Inr L \<longrightarrow>
        (\<exists>int16Data. resampleAudio inputData sourceSampleRate targetSampleRate = Inr int16Data
           \<and> length int16Data
               = (if sourceSampleRate = targetSampleRate then length inputData else L))
      \<and> (\<forall>i<L. \<exists>ratio srcIndex.
            divide64 sourceSampleRate targetSampleRate = Num ratio
          \<and> times64 (Num (of_nat i)) (Num ratio) = Num srcIndex
          \<and> 0 \<le> \<lfloor>srcIndex\<rfloor> \<and> \<lfloor>srcIndex\<rfloor> \<le> int (length inputData) - 1
          \<and> 0 \<le> min (\<lfloor>srcIndex\<rfloor> + 1) (int (length inputData) - 1)
          \<and> min (\<lfloor>srcIndex\<rfloor> + 1) (int (length inputData) - 1) \<le> int (length inputData) - 1
          \<and> readFloat inputData \<lfloor>srcIndex\<rfloor> = inputData ! nat \<lfloor>srcIndex\<rfloor>
          \<and> readFloat inputData (min (\<lfloor>srcIndex\<rfloor> + 1) (int (length inputData) - 1))
              = inputData ! nat (min (\<lfloor>srcIndex\<rfloor> + 1) (int (length inputData) - 1))))
    \<and> (outputLengthOf (length inputData) sourceSampleRate targetSampleRate = Inl RangeError \<longrightarrow>
        sourceSampleRate \<noteq> targetSampleRate \<longrightarrow>
        resampleAudio inputData sourceSampleRate targetSampleRate = Inl RangeError)"
proof (intro conjI impI allI)
  assume L: "outputLengthOf (length inputData) sourceSampleRate targetSampleRate = Inr L"
  show "\<exists>int16Data. resampleAudio inputData sourceSampleRate targetSampleRate = Inr int16Data
           \<and> length int16Data
               = (if sourceSampleRate = targetSampleRate then length inputData else L)"
  proof (cases "sourceSampleRate = targetSampleRate")
    case True
    then show ?thesis by (simp add: resampleAudio_identity)
  next
    case False
    from resampleAudio_interpolation [OF False, of inputData] L False show ?thesis
      by (simp add: outputDataOf_map)
  qed
  fix i assume "i < L"
  from reads_in_bounds [OF assms L this] obtain ratio srcIndex where
    r: "divide64 sourceSampleRate targetSampleRate = Num ratio"
    and s: "round64 (of_nat i * ratio) = Num srcIndex"
    and b: "0 \<le> \<lfloor>srcIndex\<rfloor>" "\<lfloor>srcIndex\<rfloor> \<le> int (length inputData) - 1"
      "0 \<le> min (\<lfloor>srcIndex\<rfloor> + 1) (int (length inputData) - 1)"
      "min (\<lfloor>srcIndex\<rfloor> + 1) (int (length inputData) - 1) \<le> int (length inputData) - 1"
    by blast
  from b have "readFloat inputData \<lfloor>srcIndex\<rfloor> = inputData ! nat \<lfloor>srcIndex\<rfloor>"
    and "readFloat inputData (min (\<lfloor>srcIndex\<rfloor> + 1) (int (length inputData) - 1))
          = inputData ! nat (min (\<lfloor>srcIndex\<rfloor> + 1) (int (length inputData) - 1))"
    by (simp_all add: readFloat_def)
  with r s b show "\<exists>ratio srcIndex.
            divide64 sourceSampleRate targetSampleRate = Num ratio
          \<and> times64 (Num (of_nat i)) (Num ratio) = Num srcIndex
          \<and> 0 \<le> \<lfloor>srcIndex\<rfloor> \<and> \<lfloor>srcIndex\<rfloor> \<le> int (length inputData) - 1
          \<and> 0 \<le> min (\<lfloor>srcIndex\<rfloor> + 1) (int (length inputData) - 1)
          \<and> min (\<lfloor>srcIndex\<rfloor> + 1) (int (length inputData) - 1) \<le> int (length inputData) - 1
          \<and> readFloat inputData \<lfloor>srcIndex\<rfloor> = inputData ! nat \<lfloor>srcIndex\<rfloor>
          \<and> readFloat inputData (min (\<lfloor>srcIndex\<rfloor> + 1) (int (length inputData) - 1))
              = inputData ! nat (min (\<lfloor>srcIndex\<rfloor> + 1) (int (length inputData) - 1))"
    by (intro exI [of _ ratio] exI [of _ srcIndex]) simp
next
  assume "outputLengthOf (length inputData) sourceSampleRate targetSampleRate = Inl RangeError"
    and "sourceSampleRate \<noteq> targetSampleRate"
  then show "resampleAudio inputData sourceSampleRate targetSampleRate = Inl RangeError"
    by (simp add: resampleAudio_interpolation)
qed

theorem interpolation_reads_in_bounds_witness:
  "outputLengthOf (length [Num 1, Num 0, Num (1 / 2)]) 44100 16000 = Inr 1 \<and>
   (\<exists>int16Data. resampleAudio [Num 1, Num 0, Num (1 / 2)] 44100 16000 = Inr int16Data
      \<and> length int16Data = 1) \<and>
   (\<exists>ratio srcIndex. divide64 44100 16000 = Num ratio
      \<and> times64 (Num 0) (Num ratio) = Num srcIndex
      \<and> readFloat [Num 1, Num 0, Num (1 / 2)] \<lfloor>srcIndex\<rfloor>
          = [Num 1, Num 0, Num (1 / 2)] ! nat \<lfloor>srcIndex\<rfloor>)"
proof -
  have h: "(0::rat) < 44100" "(0::rat) < 16000"
    "int (length [Num 1, Num 0, Num (1 / 2)]) \<le> maxFloat32ArrayLength"
    by (simp_all add: maxFloat32ArrayLength_def)
  have L: "outputLengthOf (length [Num 1, Num 0, Num (1 / 2)]) 44100 16000 = Inr 1"
    by (simp add: resample_eval)
  note t = interpolation_reads_in_bounds [OF h, of 1]
  from t L have total: "\<exists>int16Data. resampleAudio [Num 1, Num 0, Num (1 / 2)] 44100 16000
      = Inr int16Data \<and> length int16Data = 1"
    by simp
  from t L have "\<forall>i<1. \<exists>ratio srcIndex. divide64 44100 16000 = Num ratio
      \<and> times64 (Num (of_nat i)) (Num ratio) = Num srcIndex
      \<and> readFloat [Num 1, Num 0, Num (1 / 2)] \<lfloor>srcIndex\<rfloor>
          = [Num 1, Num 0, Num (1 / 2)] ! nat \<lfloor>srcIndex\<rfloor>"
    by blast
  then have reads: "\<exists>ratio srcIndex. divide64 44100 16000 = Num ratio
      \<and> times64 (Num 0) (Num ratio) = Num srcIndex
      \<and> readFloat [Num 1, Num 0, Num (1 / 2)] \<lfloor>srcIndex\<rfloor>
          = [Num 1, Num 0, Num (1 / 2)] ! nat \<lfloor>srcIndex\<rfloor>"
    by (metis less_numeral_extra(1) of_nat_0)
  from L total reads show ?thesis by (intro conjI)
qed

section \<open>Properties of the lifecycle\<close>

subsection \<open>What a release changes\<close>

lemmas release_defs =
  releaseProcessor_def releaseMediaStream_def releaseAudioContext_def releasePeerConnection_def

lemma cleanup_refs:
  "processorRef (cleanup s) = None" "mediaStreamRef (cleanup s) = None"
  "audioContextRef (cleanup s) = None" "pcRef (cleanup s) = None"
  "audioChannelRef (cleanup s) = None" "transcriptionChannelRef (cleanup s) = None"
  by (simp_all add: cleanup_def release_defs split: option.splits)

lemma cleanup_keeps:
  "connectionState (cleanup s) = connectionState s" "transcription (cleanup s) = transcription s"
  "errorMessage (cleanup s) = errorMessage s" "oncloseScope (cleanup s) = oncloseScope s"
  by (simp_all add: cleanup_def release_defs split: option.splits)

lemma cleanup_calls:
  "calls (cleanup s) = calls s
     @ (if processorRef s = None then [] else [ProcessorDisconnect])
     @ (if mediaStreamRef s = None then [] else [TracksStop])
     @ (if audioContextRef s = None then [] else [AudioContextClose])
     @ (if pcRef s = None then [] else [PeerConnectionClose])"
  by (auto simp: cleanup_def release_defs split: option.splits)

lemma cleanup_no_handles:
  assumes "processorRef s = None" "mediaStreamRef s = None" "audioContextRef s = None"
    "pcRef s = None" "audioChannelRef s = None" "transcriptionChannelRef s = None"
  shows "cleanup s = s"
  using assms by (simp add: cleanup_def release_defs)

lemma cleanup_cleanup: "cleanup (cleanup s) = cleanup s"
  by (rule cleanup_no_handles) (rule cleanup_refs)+

lemma stopRecording_keeps:
  "pcRef (stopRecording s) = pcRef s" "audioChannelRef (stopRecording s) = audioChannelRef s"
  "transcriptionChannelRef (stopRecording s) = transcriptionChannelRef s"
  "errorMessage (stopRecording s) = errorMessage s" "oncloseScope (stopRecording s) = oncloseScope s"
  "connectionState (stopRecording s) = Connected"
  by (simp_all add: stopRecording_def release_defs split: option.splits)

lemma startRecording_catch_fields:
  "connectionState (startRecording_catch error s) = Error"
  "errorMessage (startRecording_catch error s) = messageOf error ''Failed to start recording''"
  "oncloseScope (startRecording_catch error s) = oncloseScope s"
  "processorRef (startRecording_catch error s) = processorRef s"
  "mediaStreamRef (startRecording_catch error s) = None"
  "audioContextRef (startRecording_catch error s) = None"
  by (simp_all add: startRecording_catch_def release_defs split: option.splits)

lemma run_Nil [simp]: "run [] s = s"
  by (simp add: run_def)

lemma run_Cons [simp]: "run (e # events) s = run events (step s e)"
  by (simp add: run_def)

lemma run_snoc: "run (events @ [e]) s = step (run events s) e"
  by (simp add: run_def)

subsection \<open>The state that \<open>audioChannel.onclose\<close> reads\<close>

text \<open>The Connect button is enabled only in \<open>Disconnected\<close>, so every \<open>connect\<close> that
  runs was created in a render with \<open>connectionState = 'disconnected'\<close>, and that is the value
  its \<open>onclose\<close> handler compares with \<open>'recording'\<close>.\<close>

lemma step_oncloseScope:
  assumes "oncloseScope s = None \<or> oncloseScope s = Some Disconnected"
  shows "oncloseScope (step s e) = None \<or> oncloseScope (step s e) = Some Disconnected"
proof (cases e)
  case (ConnectSettled r)
  with assms show ?thesis
    by (cases r) (simp_all add: connect_catch_def cleanup_keeps)
next
  case (TranscriptionMessage data)
  have "oncloseScope (transcriptionChannel_onmessage data s) = oncloseScope s"
    by (induction data s rule: transcriptionChannel_onmessage.induct) simp_all
  with assms TranscriptionMessage show ?thesis by simp
next
  case (MicrophoneSettled outcome)
  have "oncloseScope (startRecording_resumed outcome s) = oncloseScope s"
    by (induction outcome s rule: startRecording_resumed.induct)
      (simp_all add: startRecording_catch_fields)
  with assms MicrophoneSettled show ?thesis by simp
qed (use assms in \<open>auto simp: connect_def audioChannel_onopen_def audioChannel_onerror_def
      audioChannel_onclose_def pc_onconnectionstatechange_def startRecording_def disconnect_def
      cleanup_keeps stopRecording_keeps\<close>)

lemma run_oncloseScope:
  "oncloseScope (run events initial) = None \<or> oncloseScope (run events initial) = Some Disconnected"
proof (induction events rule: rev_induct)
  case Nil
  show ?case by (simp add: initial_def)
next
  case (snoc e events)
  then show ?case
    by (simp only: run_snoc step_oncloseScope)
qed

lemma onclose_never_stops: "step (run events initial) AudioChannelClose = run events initial"
  using run_oncloseScope [of events] by (auto simp: audioChannel_onclose_def)


subsection \<open>A failure of \<open>startRecording\<close> before the processing node exists\<close>

lemma startRecording_failure_before_processor:
  assumes "point \<in> {GetUserMedia, NewAudioContext, CreateMediaStreamSource, CreateScriptProcessor}"
  shows "mediaStreamRef (startRecording_resumed (ThrowsAt point error) s) = None"
    and "audioContextRef (startRecording_resumed (ThrowsAt point error) s) = None"
    and "processorRef (startRecording_resumed (ThrowsAt point error) s) = processorRef s"
  using assms by (auto simp: startRecording_catch_fields)

subsection \<open>Claims about the lifecycle\<close>

lemmas lifecycle_defs =
  initial_def connect_def connect_catch_def cleanup_def release_defs stopRecording_def
  disconnect_def audioChannel_onopen_def audioChannel_onerror_def audioChannel_onclose_def
  pc_onconnectionstatechange_def startRecording_def startRecording_catch_def installed_def
  messageOf_def httpError_def

text \<open>
  C4. \<open>cleanup\<close> is idempotent. After one call the six handles (processing node, media
  stream, audio context, peer connection and the two channels) are all absent; the call
  releases the handles that were present, in the order processing node, media stream,
  audio context, peer connection; and a second call straight after it makes no release call
  and returns the state unchanged.
\<close>

theorem cleanup_idempotent:
  "processorRef (cleanup s) = None \<and> mediaStreamRef (cleanup s) = None
   \<and> audioContextRef (cleanup s) = None \<and> pcRef (cleanup s) = None
   \<and> audioChannelRef (cleanup s) = None \<and> transcriptionChannelRef (cleanup s) = None
   \<and> calls (cleanup s) = calls s
        @ (if processorRef s = None then [] else [ProcessorDisconnect])
        @ (if mediaStreamRef s = None then [] else [TracksStop])
        @ (if audioContextRef s = None then [] else [AudioContextClose])
        @ (if pcRef s = None then [] else [PeerConnectionClose])
   \<and> calls (cleanup (cleanup s)) = calls (cleanup s)
   \<and> cleanup (cleanup s) = cleanup s"
  by (simp only: cleanup_refs cleanup_calls [of s] cleanup_cleanup simp_thms)

text \<open>
  C5. \<open>disconnect\<close>, from any state of the component: the state becomes
  \<open>Disconnected\<close>, the transcript and the error message become empty, and \<open>cleanup\<close> has
  run: all six handles are absent and the release calls made are those of \<open>cleanup\<close>.
\<close>

theorem disconnect_resets:
  "connectionState (disconnect s) = Disconnected \<and> transcription (disconnect s) = []
   \<and> errorMessage (disconnect s) = []
   \<and> processorRef (disconnect s) = None \<and> mediaStreamRef (disconnect s) = None
   \<and> audioContextRef (disconnect s) = None \<and> pcRef (disconnect s) = None
   \<and> audioChannelRef (disconnect s) = None \<and> transcriptionChannelRef (disconnect s) = None
   \<and> calls (disconnect s) = calls (cleanup s)
   \<and> disconnect s = (cleanup s)\<lparr>connectionState := Disconnected, transcription := [],
        errorMessage := []\<rparr>"
  by (simp add: disconnect_def cleanup_refs)

text \<open>
  C3. The Connect button is the only caller of \<open>connect\<close> and it is disabled unless the
  state is \<open>Disconnected\<close>: a connect command in any other state changes nothing (no state
  change, no new peer connection or channel, no call). From \<open>Disconnected\<close> the command
  runs \<open>connect\<close>, and the state that a call of \<open>connect\<close> sets is \<open>Connecting\<close>.
\<close>

theorem connect_only_from_disconnected:
  "(connectionState s \<noteq> Disconnected \<longrightarrow> step s ClickConnect = s)
   \<and> (connectionState s = Disconnected \<longrightarrow>
        step s ClickConnect = connect s \<and> connectionState (step s ClickConnect) = Connecting)
   \<and> connectionState (connect s) = Connecting"
  by (simp add: connect_def)

theorem connect_only_from_disconnected_witness:
  "connectionState (step initial ClickConnect) = Connecting
   \<and> step (step initial ClickConnect) ClickConnect = step initial ClickConnect
   \<and> pcRef (step (step initial ClickConnect) ClickConnect) = Some PeerConnection"
proof -
  have d: "connectionState initial = Disconnected"
    by (simp add: initial_def)
  from connect_only_from_disconnected [of initial] d
  have first: "step initial ClickConnect = connect initial"
    and c: "connectionState (step initial ClickConnect) = Connecting"
    by simp_all
  from c connect_only_from_disconnected [of "step initial ClickConnect"]
  have second: "step (step initial ClickConnect) ClickConnect = step initial ClickConnect"
    by simp
  have "pcRef (connect initial) = Some PeerConnection"
    by (simp add: connect_def)
  with first second c show ?thesis by simp
qed

text \<open>
  C2 (the code does otherwise). The session is connected, the audio channel has opened and
  recording has started; then the audio channel closes. The \<open>onclose\<close> handler compares the
  \<open>connectionState\<close> of the render in which \<open>connect\<close> was created, which is
  \<open>'disconnected'\<close>, with \<open>'recording'\<close>: \<open>stopRecording\<close> is not called, the state stays
  \<open>Recording\<close> and the processing node, the media stream and the audio context are kept.
\<close>

theorem onclose_while_recording:
  "connectionState (run [ClickConnect, ConnectSettled None, AudioChannelOpen,
       ClickStartRecording, MicrophoneSettled Completes] initial) = Recording
   \<and> run [ClickConnect, ConnectSettled None, AudioChannelOpen,
       ClickStartRecording, MicrophoneSettled Completes, AudioChannelClose] initial
     = run [ClickConnect, ConnectSettled None, AudioChannelOpen,
       ClickStartRecording, MicrophoneSettled Completes] initial
   \<and> processorRef (run [ClickConnect, ConnectSettled None, AudioChannelOpen,
       ClickStartRecording, MicrophoneSettled Completes, AudioChannelClose] initial)
     = Some ScriptProcessor
   \<and> mediaStreamRef (run [ClickConnect, ConnectSettled None, AudioChannelOpen,
       ClickStartRecording, MicrophoneSettled Completes, AudioChannelClose] initial)
     = Some MediaStream
   \<and> audioContextRef (run [ClickConnect, ConnectSettled None, AudioChannelOpen,
       ClickStartRecording, MicrophoneSettled Completes, AudioChannelClose] initial)
     = Some AudioContext
   \<and> calls (run [ClickConnect, ConnectSettled None, AudioChannelOpen,
       ClickStartRecording, MicrophoneSettled Completes, AudioChannelClose] initial) = []"
  by (simp add: lifecycle_defs)

text \<open>
  C8 (the code does otherwise). Recording is started in a connected session; the microphone
  is granted, the audio context and the processing node are created, and connecting the
  source to the processing node throws. The \<open>catch\<close> block releases the media stream and
  the audio context only: in the \<open>Error\<close> state the processing node is still held and
  \<open>disconnect()\<close> has not been called on it.
\<close>

theorem startRecording_failure_keeps_processor:
  "connectionState (run [ClickConnect, ConnectSettled None, AudioChannelOpen, ClickStartRecording,
       MicrophoneSettled (ThrowsAt SourceConnect (ErrorObject ''InvalidAccessError''))] initial)
     = Error
   \<and> errorMessage (run [ClickConnect, ConnectSettled None, AudioChannelOpen, ClickStartRecording,
       MicrophoneSettled (ThrowsAt SourceConnect (ErrorObject ''InvalidAccessError''))] initial)
     = ''InvalidAccessError''
   \<and> processorRef (run [ClickConnect, ConnectSettled None, AudioChannelOpen, ClickStartRecording,
       MicrophoneSettled (ThrowsAt SourceConnect (ErrorObject ''InvalidAccessError''))] initial)
     = Some ScriptProcessor
   \<and> calls (run [ClickConnect, ConnectSettled None, AudioChannelOpen, ClickStartRecording,
       MicrophoneSettled (ThrowsAt SourceConnect (ErrorObject ''InvalidAccessError''))] initial)
     = [TracksStop, AudioContextClose]"
  by (simp add: lifecycle_defs)


subsection \<open>The error message across the states\<close>

lemma transcriptionChannel_onmessage_keeps:
  "connectionState (transcriptionChannel_onmessage data s) = connectionState s"
  "errorMessage (transcriptionChannel_onmessage data s) = errorMessage s"
  by (induction data s rule: transcriptionChannel_onmessage.induct) simp_all

lemma startRecording_resumed_cases:
  "(connectionState (startRecording_resumed outcome s) = Recording
      \<and> errorMessage (startRecording_resumed outcome s) = errorMessage s)
   \<or> (\<exists>point error. outcome = ThrowsAt point error
      \<and> connectionState (startRecording_resumed outcome s) = Error
      \<and> errorMessage (startRecording_resumed outcome s)
          = messageOf error ''Failed to start recording'')"
  by (induction outcome s rule: startRecording_resumed.induct)
    (simp_all add: startRecording_catch_fields)

lemma messageOf_nonempty:
  assumes "fallback \<noteq> []" "\<And>message. error = ErrorObject message \<Longrightarrow> message \<noteq> []"
  shows "messageOf error fallback \<noteq> []"
  using assms by (cases error) (simp_all add: messageOf_def)

lemma step_message_fits:
  assumes "message_fits s" "informative e"
  shows "message_fits (step s e)"
proof (cases e)
  case ClickConnect
  with assms show ?thesis by (simp add: message_fits_def connect_def)
next
  case (ConnectSettled r)
  show ?thesis
  proof (cases r)
    case None
    with assms ConnectSettled show ?thesis by simp
  next
    case (Some error)
    have "messageOf error ''Failed to connect'' \<noteq> []"
      using assms(2) ConnectSettled Some by (intro messageOf_nonempty) auto
    with ConnectSettled Some show ?thesis
      by (simp add: message_fits_def connect_catch_def cleanup_keeps)
  qed
next
  case AudioChannelOpen
  with assms show ?thesis by (simp add: message_fits_def audioChannel_onopen_def)
next
  case AudioChannelError
  with assms show ?thesis by (simp add: message_fits_def audioChannel_onerror_def)
next
  case AudioChannelClose
  with assms show ?thesis
    by (simp add: message_fits_def audioChannel_onclose_def stopRecording_keeps)
next
  case (TranscriptionMessage data)
  with assms show ?thesis
    by (simp add: message_fits_def transcriptionChannel_onmessage_keeps)
next
  case (ConnectionStateChange pcState)
  with assms show ?thesis
    by (simp add: message_fits_def pc_onconnectionstatechange_def cleanup_keeps)
next
  case ClickStartRecording
  with assms show ?thesis by (simp add: message_fits_def startRecording_def)
next
  case (MicrophoneSettled outcome)
  from startRecording_resumed_cases [of outcome s] show ?thesis
  proof
    assume "connectionState (startRecording_resumed outcome s) = Recording
      \<and> errorMessage (startRecording_resumed outcome s) = errorMessage s"
    with MicrophoneSettled show ?thesis by (simp add: message_fits_def)
  next
    assume "\<exists>point error. outcome = ThrowsAt point error
      \<and> connectionState (startRecording_resumed outcome s) = Error
      \<and> errorMessage (startRecording_resumed outcome s)
          = messageOf error ''Failed to start recording''"
    then obtain st error where o: "outcome = ThrowsAt st error"
      and c: "connectionState (startRecording_resumed outcome s) = Error"
      and m: "errorMessage (startRecording_resumed outcome s)
          = messageOf error ''Failed to start recording''"
      by blast
    have "messageOf error ''Failed to start recording'' \<noteq> []"
      using assms(2) MicrophoneSettled o by (intro messageOf_nonempty) auto
    with MicrophoneSettled c m show ?thesis by (simp add: message_fits_def)
  qed
next
  case ClickStopRecording
  with assms show ?thesis by (simp add: message_fits_def stopRecording_keeps)
next
  case ClickDisconnect
  with assms show ?thesis by (simp add: message_fits_def disconnect_def)
qed

lemma run_message_fits:
  "\<forall>e\<in>set events. informative e \<Longrightarrow> message_fits (run events initial)"
proof (induction events rule: rev_induct)
  case Nil
  show ?case by (simp add: message_fits_def initial_def)
next
  case (snoc e events)
  then show ?case
    by (simp add: run_snoc step_message_fits)
qed

text \<open>
  C9, as the code has it. A recording attempt fails in a connected session (the microphone
  is refused), the state is \<open>Error\<close> with the message of the failure, and then the
  transport reports that the peer connection is disconnected: the handler sets
  \<open>Disconnected\<close> and runs \<open>cleanup\<close>, and the message stays. A state that is not \<open>Error\<close>
  carries a message that is not empty.
\<close>

theorem stale_error_message:
  "connectionState (run [ClickConnect, ConnectSettled None, AudioChannelOpen, ClickStartRecording,
       MicrophoneSettled (ThrowsAt GetUserMedia (ErrorObject ''Permission denied'')),
       ConnectionStateChange PcDisconnected] initial) = Disconnected
   \<and> errorMessage (run [ClickConnect, ConnectSettled None, AudioChannelOpen, ClickStartRecording,
       MicrophoneSettled (ThrowsAt GetUserMedia (ErrorObject ''Permission denied'')),
       ConnectionStateChange PcDisconnected] initial) = ''Permission denied''"
  by (simp add: lifecycle_defs)

text \<open>
  C9, amended. In every state reached from the initial one by events whose error objects
  have a message, the \<open>Error\<close> state carries an error message that is not empty and the
  \<open>Connecting\<close> state carries an empty one. \<open>connect\<close>, \<open>startRecording\<close> and \<open>disconnect\<close>
  clear the message. The status line shows the message in the \<open>Error\<close> state and in no
  other state, whatever the message is.
\<close>

theorem error_message_by_state:
  assumes "\<forall>e\<in>set events. informative e"
  shows "(connectionState (run events initial) = Error \<longrightarrow> errorMessage (run events initial) \<noteq> [])
    \<and> (connectionState (run events initial) = Connecting \<longrightarrow> errorMessage (run events initial) = [])
    \<and> errorMessage (connect s) = [] \<and> errorMessage (startRecording s) = []
    \<and> errorMessage (disconnect s) = []
    \<and> (connectionState s = Error \<longrightarrow> getStatusText s = ''Error: '' @ errorMessage s)
    \<and> (connectionState s \<noteq> Error \<longrightarrow>
          getStatusText (s\<lparr>errorMessage := message\<rparr>) = getStatusText s)"
proof -
  have "message_fits (run events initial)"
    using assms by (rule run_message_fits)
  then have "(connectionState (run events initial) = Error \<longrightarrow> errorMessage (run events initial) \<noteq> [])
    \<and> (connectionState (run events initial) = Connecting \<longrightarrow> errorMessage (run events initial) = [])"
    by (simp add: message_fits_def)
  moreover have "errorMessage (connect s) = []" "errorMessage (startRecording s) = []"
    "errorMessage (disconnect s) = []"
    by (simp_all add: connect_def startRecording_def disconnect_def)
  moreover have "connectionState s = Error \<longrightarrow> getStatusText s = ''Error: '' @ errorMessage s"
    by (simp add: getStatusText_def)
  moreover have "connectionState s \<noteq> Error \<longrightarrow>
      getStatusText (s\<lparr>errorMessage := message\<rparr>) = getStatusText s"
    by (cases "connectionState s") (simp_all add: getStatusText_def)
  ultimately show ?thesis by blast
qed

theorem error_message_by_state_witness:
  "connectionState (run [ClickConnect, ConnectSettled (Some (httpError ''503''))] initial) = Error
   \<and> errorMessage (run [ClickConnect, ConnectSettled (Some (httpError ''503''))] initial) \<noteq> []
   \<and> getStatusText (run [ClickConnect, ConnectSettled (Some (httpError ''503''))] initial)
       = ''Error: HTTP error! status: 503''"
proof -
  let ?events = "[ClickConnect, ConnectSettled (Some (httpError ''503''))]"
  have inf: "\<forall>e\<in>set ?events. informative e"
    by (simp add: httpError_def)
  have err: "connectionState (run ?events initial) = Error"
    by (simp add: lifecycle_defs)
  have msg: "errorMessage (run ?events initial) = ''HTTP error! status: 503''"
    by (simp add: lifecycle_defs)
  from error_message_by_state [OF inf, of "run ?events initial"] err
  have "errorMessage (run ?events initial) \<noteq> []"
    and "getStatusText (run ?events initial) = ''Error: '' @ errorMessage (run ?events initial)"
    by blast+
  with err msg show ?thesis by simp
qed
end
